theory Spec2Isabelle
  imports Complex_Main "HOL-Library.Sublist" "HOL-Library.Multiset"
begin

section \<open>The SetuBond matching engine\<close>

text \<open>
  A shallow embedding of \<^verbatim>\<open>matching-engine.service.ts\<close> (class
  \<^verbatim>\<open>MatchingEngineService\<close>), of the entities it works on
  (\<^verbatim>\<open>order.entity.ts\<close>, \<^verbatim>\<open>trade.entity.ts\<close>) and of the caller
  \<^verbatim>\<open>TradingService.cancelOrder\<close>.

  Conventions of the embedding.
  \<^item> A JavaScript \<^verbatim>\<open>number\<close> holding a quantity or a price is an exact rational; rounding
    of IEEE doubles and of the decimal columns is not modelled, so
    \<^verbatim>\<open>parseFloat(x.toString())\<close> is the identity on a number that is present.
  \<^item> A \<^verbatim>\<open>Date\<close> is a natural number; identifiers are strings.
  \<^item> A nullable column is an \<open>option\<close>; calling \<^verbatim>\<open>.toString()\<close> on an absent price
    raises, which is the error value \<open>TypeError\<close>.
  \<^item> Each public method runs to completion without interleaving.
  \<^item> The Kafka events, the generated trade id and the wall-clock field
    \<^verbatim>\<open>executedAt\<close> are left out, and so are the columns of an order that the engine
    never reads (hidden quantity, notes, expiry, metadata, update time).
\<close>

subsection \<open>Entities\<close>

datatype OrderType = MARKET | LIMIT | STOP_LOSS | ICEBERG

datatype OrderSide = BUY | SELL

datatype OrderStatus = PENDING | PARTIALLY_FILLED | FILLED | CANCELLED | REJECTED | EXPIRED

datatype TimeInForce = GTC | IOC | FOK

text \<open>The result of \<^verbatim>\<open>totalValue / totalQuantity\<close>: JavaScript yields NaN or an infinity
  for a zero divisor.\<close>

datatype quotient = Finite rat | NonFinite

record Order =
  order_id :: string
  userId :: string
  order_bondId :: string
  orderType :: OrderType
  side :: OrderSide
  order_quantity :: rat
  filledQuantity :: rat
  order_price :: "rat option"
  stopPrice :: "rat option"
  averagePrice :: "quotient option"
  status :: OrderStatus
  timeInForce :: TimeInForce
  createdAt :: nat

record Trade =
  trade_bondId :: string
  buyOrderId :: string
  sellOrderId :: string
  buyUserId :: string
  sellUserId :: string
  trade_quantity :: rat
  trade_price :: rat
  totalValue :: rat

record OrderBookEntry =
  entry_id :: string
  entry_price :: rat
  entry_quantity :: rat
  remainingQuantity :: rat
  timestamp :: nat

record OrderBook =
  bids :: "OrderBookEntry list"
  asks :: "OrderBookEntry list"

text \<open>The service object: the in-memory books and the two repositories (database tables, in
  insertion order).\<close>

record engine =
  orderBooks :: "string \<rightharpoonup> OrderBook"
  orderRepository :: "Order list"
  tradeRepository :: "Trade list"

datatype error = TypeError | PersistenceError | NotFoundException | BadRequestException

subsection \<open>JavaScript arrays\<close>

text \<open>\<^verbatim>\<open>indexOf\<close> and \<^verbatim>\<open>findIndex\<close> return \<open>-1\<close> when nothing is found;
  \<^verbatim>\<open>splice(start, 1)\<close> counts a negative start from the end of the array.\<close>

definition findIndex :: "('a \<Rightarrow> bool) \<Rightarrow> 'a list \<Rightarrow> int" where
  "findIndex P xs =
     (let k = length (takeWhile (\<lambda>y. \<not> P y) xs)
      in if k < length xs then int k else - 1)"

definition indexOf :: "'a \<Rightarrow> 'a list \<Rightarrow> int" where
  "indexOf x xs = findIndex (\<lambda>y. y = x) xs"

definition splice1 :: "int \<Rightarrow> 'a list \<Rightarrow> 'a list" where
  "splice1 start xs =
     (let len = int (length xs);
          k = nat (if start < 0 then max (len + start) 0 else min start len)
      in take k xs @ drop (Suc k) xs)"

subsection \<open>Repositories and transactions\<close>

definition findOne :: "string \<Rightarrow> Order list \<Rightarrow> Order option" where
  "findOne i os = List.find (\<lambda>x. order_id x = i) os"

text \<open>\<^verbatim>\<open>save\<close> updates the row with the entity's primary key, or inserts one.\<close>

definition save_order :: "Order \<Rightarrow> Order list \<Rightarrow> Order list" where
  "save_order x os =
     (case findOne (order_id x) os of
        None \<Rightarrow> os @ [x]
      | Some _ \<Rightarrow> map (\<lambda>y. if order_id y = order_id x then x else y) os)"

text \<open>\<^verbatim>\<open>getUserIdByOrderId\<close> reads through the repository, not through the transaction's
  manager.\<close>

definition getUserIdByOrderId :: "Order list \<Rightarrow> string \<Rightarrow> string" where
  "getUserIdByOrderId repo i = (case findOne i repo of None \<Rightarrow> [] | Some x \<Rightarrow> userId x)"

text \<open>A transaction works on its own copy of the tables. \<open>tx_writes\<close> counts the writes done
  so far; the parameter \<open>fail\<close> of the functions below names the write (counted from 0) at
  which the database throws, \<open>None\<close> when it never does.\<close>

record txn =
  tx_orders :: "Order list"
  tx_trades :: "Trade list"
  tx_writes :: nat

definition begin_txn :: "engine \<Rightarrow> txn" where
  "begin_txn s = \<lparr>tx_orders = orderRepository s, tx_trades = tradeRepository s, tx_writes = 0\<rparr>"

definition commit :: "txn \<Rightarrow> engine \<Rightarrow> engine" where
  "commit t s = s\<lparr>orderRepository := tx_orders t, tradeRepository := tx_trades t\<rparr>"

definition manager_save_trade :: "nat option \<Rightarrow> Trade \<Rightarrow> txn \<Rightarrow> txn option" where
  "manager_save_trade fail t x =
     (if fail = Some (tx_writes x) then None
      else Some (x\<lparr>tx_trades := tx_trades x @ [t], tx_writes := Suc (tx_writes x)\<rparr>))"

definition manager_save_order :: "nat option \<Rightarrow> Order \<Rightarrow> txn \<Rightarrow> txn option" where
  "manager_save_order fail ord x =
     (if fail = Some (tx_writes x) then None
      else Some (x\<lparr>tx_orders := save_order ord (tx_orders x), tx_writes := Suc (tx_writes x)\<rparr>))"

subsection \<open>Order books\<close>

definition emptyBook :: OrderBook where
  "emptyBook = \<lparr>bids = [], asks = []\<rparr>"

definition getOrCreateOrderBook :: "engine \<Rightarrow> string \<Rightarrow> OrderBook \<times> engine" where
  "getOrCreateOrderBook s b =
     (case orderBooks s b of
        None \<Rightarrow> (emptyBook, s\<lparr>orderBooks := (orderBooks s)(b \<mapsto> emptyBook)\<rparr>)
      | Some ob \<Rightarrow> (ob, s))"

definition getOrderBook :: "engine \<Rightarrow> string \<Rightarrow> OrderBook" where
  "getOrderBook s b = (case orderBooks s b of None \<Rightarrow> emptyBook | Some ob \<Rightarrow> ob)"

text \<open>The book side an order rests on, the side it matches against, and storing an array
  back into the book of an instrument.\<close>

definition ownSide :: "OrderSide \<Rightarrow> OrderBook \<Rightarrow> OrderBookEntry list" where
  "ownSide sd ob = (if sd = BUY then bids ob else asks ob)"

definition oppositeSide :: "OrderSide \<Rightarrow> OrderBook \<Rightarrow> OrderBookEntry list" where
  "oppositeSide sd ob = (if sd = BUY then asks ob else bids ob)"

definition setOwnSide :: "OrderSide \<Rightarrow> OrderBookEntry list \<Rightarrow> OrderBook \<Rightarrow> OrderBook" where
  "setOwnSide sd es ob = (if sd = BUY then ob\<lparr>bids := es\<rparr> else ob\<lparr>asks := es\<rparr>)"

definition setOppositeSide :: "OrderSide \<Rightarrow> OrderBookEntry list \<Rightarrow> OrderBook \<Rightarrow> OrderBook" where
  "setOppositeSide sd es ob = (if sd = BUY then ob\<lparr>asks := es\<rparr> else ob\<lparr>bids := es\<rparr>)"

definition putBook :: "string \<Rightarrow> OrderBook \<Rightarrow> engine \<Rightarrow> engine" where
  "putBook b ob s = s\<lparr>orderBooks := (orderBooks s)(b \<mapsto> ob)\<rparr>"

text \<open>\<^verbatim>\<open>Array.prototype.sort\<close> is stable, as is \<open>sort_key\<close>: \<^verbatim>\<open>a.price - b.price\<close>
  sorts by ascending price, \<^verbatim>\<open>b.price - a.price\<close> by descending price, and entries of
  equal price keep their order.\<close>

definition sortAsks :: "OrderBookEntry list \<Rightarrow> OrderBookEntry list" where
  "sortAsks es = sort_key entry_price es"

definition sortBids :: "OrderBookEntry list \<Rightarrow> OrderBookEntry list" where
  "sortBids es = sort_key (\<lambda>e. - entry_price e) es"

text \<open>\<^verbatim>\<open>addToOrderBook(order, remainingQuantity?)\<close>; \<^verbatim>\<open>remainingQuantity || q - f\<close>
  takes the second operand when the first is absent or zero.\<close>

definition addToOrderBook :: "engine \<Rightarrow> Order \<Rightarrow> rat option \<Rightarrow> error option \<times> engine" where
  "addToOrderBook s ord rq =
     (case getOrCreateOrderBook s (order_bondId ord) of
        (orderBook, s0) \<Rightarrow>
          (case order_price ord of
             None \<Rightarrow> (Some TypeError, s0)
           | Some p \<Rightarrow>
               (let bookEntry =
                      \<lparr>entry_id = order_id ord,
                       entry_price = p,
                       entry_quantity = order_quantity ord,
                       remainingQuantity =
                         (case rq of
                            None \<Rightarrow> order_quantity ord - filledQuantity ord
                          | Some r \<Rightarrow>
                              if r = 0 then order_quantity ord - filledQuantity ord else r),
                       timestamp = createdAt ord\<rparr>
                in (None,
                    putBook (order_bondId ord)
                      (if side ord = BUY
                       then orderBook\<lparr>bids := sortBids (bids orderBook @ [bookEntry])\<rparr>
                       else orderBook\<lparr>asks := sortAsks (asks orderBook @ [bookEntry])\<rparr>)
                      s0))))"

subsection \<open>Matching one resting entry\<close>

text \<open>
  The opposite side of the book is an array of entry objects; the loops below mutate the
  objects and splice the array while a second array (\<^verbatim>\<open>matchableOrders\<close>) may hold the
  same objects. The objects therefore live in a store \<open>m_objs\<close>, addressed by their position
  in the array when the method starts, and the arrays hold references.

  \<open>matchEntry\<close> is the part of the loop body that both methods share word for word: create
  and save the trade, update the quantities, update and save the resting order. Its first
  component tells whether a write threw.
\<close>

record match_state =
  m_objs :: "OrderBookEntry list"
  m_remainingQuantity :: rat
  m_order :: Order
  m_trades :: "Trade list"
  m_tx :: txn

definition matchEntry :: "nat option \<Rightarrow> Order list \<Rightarrow> nat \<Rightarrow> match_state \<Rightarrow> bool \<times> match_state" where
  "matchEntry fail repo r st =
     (let bookEntry = m_objs st ! r;
          ord = m_order st;
          matchQuantity = min (m_remainingQuantity st) (remainingQuantity bookEntry);
          trade =
            \<lparr>trade_bondId = order_bondId ord,
             buyOrderId = (if side ord = BUY then order_id ord else entry_id bookEntry),
             sellOrderId = (if side ord = SELL then order_id ord else entry_id bookEntry),
             buyUserId =
               (if side ord = BUY then userId ord
                else getUserIdByOrderId repo (entry_id bookEntry)),
             sellUserId =
               (if side ord = SELL then userId ord
                else getUserIdByOrderId repo (entry_id bookEntry)),
             trade_quantity = matchQuantity,
             trade_price = entry_price bookEntry,
             totalValue = matchQuantity * entry_price bookEntry\<rparr>
      in case manager_save_trade fail trade (m_tx st) of
           None \<Rightarrow> (True, st)
         | Some tx1 \<Rightarrow>
             (let bookEntry' =
                    bookEntry\<lparr>remainingQuantity := remainingQuantity bookEntry - matchQuantity\<rparr>;
                  st1 =
                    st\<lparr>m_objs := (m_objs st)[r := bookEntry'],
                       m_remainingQuantity := m_remainingQuantity st - matchQuantity,
                       m_order := ord\<lparr>filledQuantity := filledQuantity ord + matchQuantity\<rparr>,
                       m_trades := m_trades st @ [trade],
                       m_tx := tx1\<rparr>
              in case findOne (entry_id bookEntry) (tx_orders tx1) of
                   None \<Rightarrow> (False, st1)
                 | Some oppositeOrder \<Rightarrow>
                     (let filled =
                            oppositeOrder
                              \<lparr>filledQuantity := filledQuantity oppositeOrder + matchQuantity\<rparr>;
                          oppositeOrder' =
                            (if remainingQuantity bookEntry' \<le> 0
                             then filled\<lparr>status := FILLED\<rparr> else filled)
                      in case manager_save_order fail oppositeOrder' tx1 of
                           None \<Rightarrow> (True, st1)
                         | Some tx2 \<Rightarrow> (False, st1\<lparr>m_tx := tx2\<rparr>))))"

text \<open>The array of references as an array of entries.\<close>

definition deref :: "OrderBookEntry list \<Rightarrow> nat list \<Rightarrow> OrderBookEntry list" where
  "deref objs refs = map (\<lambda>r. objs ! r) refs"

text \<open>\<^verbatim>\<open>totalValue / totalQuantity\<close> over the trades of the attempt.\<close>

definition average :: "Trade list \<Rightarrow> quotient" where
  "average ts =
     (let totalValue = foldl (\<lambda>sum t. sum + totalValue t) 0 ts;
          totalQuantity = foldl (\<lambda>sum t. sum + trade_quantity t) 0 ts
      in if totalQuantity = 0 then NonFinite else Finite (totalValue / totalQuantity))"

definition setAveragePrice :: "Trade list \<Rightarrow> Order \<Rightarrow> Order" where
  "setAveragePrice ts ord = (if ts = [] then ord else ord\<lparr>averagePrice := Some (average ts)\<rparr>)"

subsection \<open>Market orders\<close>

text \<open>
  \<^verbatim>\<open>for (const bookEntry of oppositeBook)\<close> walks the live array by index: the iterator
  compares its index with the current length before each step, and the body splices the
  array it walks. After a removal the next step therefore reads position \<open>i + 1\<close> of the
  shortened array, and the entry that has moved to position \<open>i\<close> is not visited.
\<close>

function market_loop ::
  "nat option \<Rightarrow> Order list \<Rightarrow> nat \<Rightarrow> nat list \<Rightarrow> match_state \<Rightarrow> bool \<times> nat list \<times> match_state" where
  "market_loop fail repo i oppositeBook st =
     (if length oppositeBook \<le> i then (False, oppositeBook, st)
      else if m_remainingQuantity st \<le> 0 then (False, oppositeBook, st)
      else
        (let res = matchEntry fail repo (oppositeBook ! i) st;
             st' = snd res
         in if fst res then (True, oppositeBook, st')
            else if remainingQuantity (m_objs st' ! (oppositeBook ! i)) \<le> 0
            then market_loop fail repo (Suc i)
                   (splice1 (indexOf (oppositeBook ! i) oppositeBook) oppositeBook) st'
            else market_loop fail repo (Suc i) oppositeBook st'))"
  by pat_completeness auto

termination market_loop
proof (relation "measure (\<lambda>(fail, repo, i, book, st). length book - i)")
  show "wf (measure (\<lambda>(fail, repo, i, book, st). length book - i))"
    by simp
next
  fix fail :: "nat option" and repo :: "Order list" and i :: nat and oppositeBook :: "nat list"
    and st :: match_state and x :: "bool \<times> match_state" and xa :: match_state
  assume "\<not> length oppositeBook \<le> i"
  moreover have "length (splice1 (indexOf (oppositeBook ! i) oppositeBook) oppositeBook)
      \<le> length oppositeBook"
    by (simp add: splice1_def Let_def)
  ultimately show "((fail, repo, Suc i,
        splice1 (indexOf (oppositeBook ! i) oppositeBook) oppositeBook, xa),
      fail, repo, i, oppositeBook, st)
      \<in> measure (\<lambda>(fail, repo, i, book, st). length book - i)"
    by simp
next
  fix fail :: "nat option" and repo :: "Order list" and i :: nat and oppositeBook :: "nat list"
    and st :: match_state and xa :: match_state
  assume "\<not> length oppositeBook \<le> i"
  then show "((fail, repo, Suc i, oppositeBook, xa), fail, repo, i, oppositeBook, st)
      \<in> measure (\<lambda>(fail, repo, i, book, st). length book - i)"
    by simp
qed

declare market_loop.simps [simp del]

definition marketStatus :: "rat \<Rightarrow> Order \<Rightarrow> Order" where
  "marketStatus remaining ord =
     (if remaining \<le> 0 then ord\<lparr>status := FILLED\<rparr>
      else if filledQuantity ord > 0 then ord\<lparr>status := PARTIALLY_FILLED\<rparr>
      else ord\<lparr>status := REJECTED\<rparr>)"

text \<open>The result of processing: the trades or the exception, the caller's order object as the
  call left it, and the service afterwards.\<close>

type_synonym outcome = "(error + Trade list) \<times> Order \<times> engine"

definition processMarketOrder :: "nat option \<Rightarrow> engine \<Rightarrow> Order \<Rightarrow> outcome" where
  "processMarketOrder fail s ord =
     (case getOrCreateOrderBook s (order_bondId ord) of
        (orderBook, s0) \<Rightarrow>
          (let objs = oppositeSide (side ord) orderBook;
               sorted =
                 sort_key
                   (\<lambda>r. if side ord = BUY then entry_price (objs ! r) else - entry_price (objs ! r))
                   [0..<length objs];
               st0 =
                 \<lparr>m_objs = objs, m_remainingQuantity = order_quantity ord, m_order = ord,
                  m_trades = [], m_tx = begin_txn s0\<rparr>
           in case market_loop fail (orderRepository s0) 0 sorted st0 of
                (failed, oppositeBook, st) \<Rightarrow>
                  (let s1 =
                         putBook (order_bondId ord)
                           (setOppositeSide (side ord) (deref (m_objs st) oppositeBook) orderBook) s0
                   in if failed then (Inl PersistenceError, m_order st, s1)
                      else
                        (let ord' =
                               setAveragePrice (m_trades st)
                                 (marketStatus (m_remainingQuantity st) (m_order st))
                         in case manager_save_order fail ord' (m_tx st) of
                              None \<Rightarrow> (Inl PersistenceError, ord', s1)
                            | Some tx' \<Rightarrow> (Inr (m_trades st), ord', commit tx' s1)))))"

subsection \<open>Limit orders\<close>

text \<open>The loop walks \<^verbatim>\<open>matchableOrders\<close>, a filtered and sorted copy, and splices the
  book's own array; \<^verbatim>\<open>indexOf\<close> looks the object up by identity.\<close>

fun limit_loop ::
  "nat option \<Rightarrow> Order list \<Rightarrow> nat list \<Rightarrow> nat list \<Rightarrow> match_state \<Rightarrow> bool \<times> nat list \<times> match_state" where
  "limit_loop fail repo [] oppositeBook st = (False, oppositeBook, st)"
| "limit_loop fail repo (r # matchableOrders) oppositeBook st =
     (if m_remainingQuantity st \<le> 0 then (False, oppositeBook, st)
      else
        (let res = matchEntry fail repo r st;
             st' = snd res
         in if fst res then (True, oppositeBook, st')
            else if remainingQuantity (m_objs st' ! r) \<le> 0
            then limit_loop fail repo matchableOrders (splice1 (indexOf r oppositeBook) oppositeBook) st'
            else limit_loop fail repo matchableOrders oppositeBook st'))"

text \<open>The filter's callback reads \<^verbatim>\<open>order.price.toString()\<close> once for each entry of the
  opposite side, so an absent price raises as soon as that side is not empty.\<close>

definition matchable :: "Order \<Rightarrow> OrderBookEntry list \<Rightarrow> error + nat list" where
  "matchable ord objs =
     (if objs = [] then Inr []
      else
        (case order_price ord of
           None \<Rightarrow> Inl TypeError
         | Some p \<Rightarrow>
             Inr (sort_key
                    (\<lambda>r. if side ord = BUY then entry_price (objs ! r) else - entry_price (objs ! r))
                    (filter
                       (\<lambda>r. if side ord = BUY then entry_price (objs ! r) \<le> p
                            else entry_price (objs ! r) \<ge> p)
                       [0..<length objs]))))"

definition limitStatus :: "Order \<Rightarrow> Order" where
  "limitStatus ord = (if filledQuantity ord > 0 then ord\<lparr>status := PARTIALLY_FILLED\<rparr> else ord)"

definition processLimitOrder :: "nat option \<Rightarrow> engine \<Rightarrow> Order \<Rightarrow> outcome" where
  "processLimitOrder fail s ord =
     (case getOrCreateOrderBook s (order_bondId ord) of
        (orderBook, s0) \<Rightarrow>
          (let objs = oppositeSide (side ord) orderBook
           in case matchable ord objs of
                Inl e \<Rightarrow> (Inl e, ord, s0)
              | Inr matchableOrders \<Rightarrow>
                  (let st0 =
                         \<lparr>m_objs = objs, m_remainingQuantity = order_quantity ord, m_order = ord,
                          m_trades = [], m_tx = begin_txn s0\<rparr>
                   in case limit_loop fail (orderRepository s0) matchableOrders [0..<length objs] st0 of
                        (failed, oppositeBook, st) \<Rightarrow>
                          (let s1 =
                                 putBook (order_bondId ord)
                                   (setOppositeSide (side ord) (deref (m_objs st) oppositeBook)
                                      orderBook)
                                   s0
                           in if failed then (Inl PersistenceError, m_order st, s1)
                              else if m_remainingQuantity st \<le> 0
                              then
                                (let ord' =
                                       setAveragePrice (m_trades st) ((m_order st)\<lparr>status := FILLED\<rparr>)
                                 in case manager_save_order fail ord' (m_tx st) of
                                      None \<Rightarrow> (Inl PersistenceError, ord', s1)
                                    | Some tx' \<Rightarrow> (Inr (m_trades st), ord', commit tx' s1))
                              else
                                (let ord1 = limitStatus (m_order st)
                                 in case addToOrderBook s1 ord1 (Some (m_remainingQuantity st)) of
                                      (Some e, s2) \<Rightarrow> (Inl e, ord1, s2)
                                    | (None, s2) \<Rightarrow>
                                        (let ord' = setAveragePrice (m_trades st) ord1
                                         in case manager_save_order fail ord' (m_tx st) of
                                              None \<Rightarrow> (Inl PersistenceError, ord', s2)
                                            | Some tx' \<Rightarrow>
                                                (Inr (m_trades st), ord', commit tx' s2)))))))"

subsection \<open>The entry points\<close>

definition processOrder :: "nat option \<Rightarrow> engine \<Rightarrow> Order \<Rightarrow> outcome" where
  "processOrder fail s ord =
     (if orderType ord = MARKET then processMarketOrder fail s ord
      else if orderType ord = LIMIT then processLimitOrder fail s ord
      else (Inr [], ord, s))"

text \<open>\<^verbatim>\<open>find({where: {status: PENDING}, order: {createdAt: 'ASC'}})\<close>; rows of equal
  creation time are taken in table order.\<close>

definition findActive :: "Order list \<Rightarrow> Order list" where
  "findActive os = sort_key createdAt (filter (\<lambda>x. status x = PENDING) os)"

fun addAll :: "engine \<Rightarrow> Order list \<Rightarrow> error option \<times> engine" where
  "addAll s [] = (None, s)"
| "addAll s (ord # activeOrders) =
     (case addToOrderBook s ord None of
        (Some e, s') \<Rightarrow> (Some e, s')
      | (None, s') \<Rightarrow> addAll s' activeOrders)"

definition initializeOrderBooks :: "engine \<Rightarrow> error option \<times> engine" where
  "initializeOrderBooks s = addAll s (findActive (orderRepository s))"

text \<open>The constructor: the field initialiser \<^verbatim>\<open>orderBooks = new Map()\<close>, the injected
  repositories, and the call of \<^verbatim>\<open>initializeOrderBooks\<close>.\<close>

definition newEngine :: "Order list \<Rightarrow> Trade list \<Rightarrow> error option \<times> engine" where
  "newEngine orderRepo tradeRepo =
     initializeOrderBooks
       \<lparr>orderBooks = Map.empty, orderRepository = orderRepo, tradeRepository = tradeRepo\<rparr>"

definition cancelOrder :: "engine \<Rightarrow> string \<Rightarrow> engine" where
  "cancelOrder s orderId =
     (case findOne orderId (orderRepository s) of
        None \<Rightarrow> s
      | Some ord \<Rightarrow>
          (case getOrCreateOrderBook s (order_bondId ord) of
             (orderBook, s0) \<Rightarrow>
               (let book = ownSide (side ord) orderBook;
                    index = findIndex (\<lambda>entry. entry_id entry = orderId) book;
                    book' = (if index \<ge> 0 then splice1 index book else book);
                    s1 = putBook (order_bondId ord) (setOwnSide (side ord) book' orderBook) s0
                in s1\<lparr>orderRepository := save_order (ord\<lparr>status := CANCELLED\<rparr>) (orderRepository s1)\<rparr>)))"

subsection \<open>The trading service\<close>

definition getOrder :: "engine \<Rightarrow> string \<Rightarrow> string \<Rightarrow> error + Order" where
  "getOrder s i uid =
     (case List.find (\<lambda>x. order_id x = i \<and> userId x = uid) (orderRepository s) of
        None \<Rightarrow> Inl NotFoundException
      | Some ord \<Rightarrow> Inr ord)"

definition TradingService_cancelOrder :: "engine \<Rightarrow> string \<Rightarrow> string \<Rightarrow> (error + Order) \<times> engine" where
  "TradingService_cancelOrder s i uid =
     (case getOrder s i uid of
        Inl e \<Rightarrow> (Inl e, s)
      | Inr ord \<Rightarrow>
          if status ord \<noteq> PENDING then (Inl BadRequestException, s)
          else
            (let s1 = cancelOrder s i;
                 ord' = ord\<lparr>status := CANCELLED\<rparr>
             in (Inr ord', s1\<lparr>orderRepository := save_order ord' (orderRepository s1)\<rparr>)))"

section \<open>Notions used to state the properties\<close>

text \<open>The total quantity of a list of trades.\<close>

definition sumq :: "Trade list \<Rightarrow> rat" where
  "sumq ts = sum_list (map trade_quantity ts)"

text \<open>The resting party of a trade made for an incoming order of side \<open>sd\<close>.\<close>

definition restingId :: "OrderSide \<Rightarrow> Trade \<Rightarrow> string" where
  "restingId sd t = (if sd = BUY then sellOrderId t else buyOrderId t)"

text \<open>Trade \<open>t\<close> was made against one of the entries \<open>es\<close>: it carries that entry's order
  id as resting party and that entry's price.\<close>

definition against :: "OrderSide \<Rightarrow> OrderBookEntry list \<Rightarrow> Trade \<Rightarrow> bool" where
  "against sd es t =
     ((restingId sd t, trade_price t) \<in> set (map (\<lambda>e. (entry_id e, entry_price e)) es))"

text \<open>What matching never changes in an entry.\<close>

definition entry_key :: "OrderBookEntry \<Rightarrow> string \<times> rat \<times> nat" where
  "entry_key e = (entry_id e, entry_price e, timestamp e)"

text \<open>How the state of a matching loop relates to an earlier one: the objects keep their
  keys, the quantity still to fill and the quantity traded add up to the same total, trades are
  only appended and each new one is made against an entry, and the order object changes in its
  filled quantity alone.\<close>

definition evolves :: "match_state \<Rightarrow> match_state \<Rightarrow> bool" where
  "evolves st st' \<longleftrightarrow>
     map entry_key (m_objs st') = map entry_key (m_objs st) \<and>
     m_remainingQuantity st' + sumq (m_trades st') = m_remainingQuantity st + sumq (m_trades st) \<and>
     (0 \<le> m_remainingQuantity st \<longrightarrow> 0 \<le> m_remainingQuantity st') \<and>
     (\<exists>new. m_trades st' = m_trades st @ new \<and> list_all (against (side (m_order st)) (m_objs st)) new) \<and>
     m_order st' =
       (m_order st)\<lparr>filledQuantity :=
          filledQuantity (m_order st) + (sumq (m_trades st') - sumq (m_trades st))\<rparr>"

section \<open>Sample data\<close>

text \<open>Orders, entries and services used to run the definitions on concrete inputs. All of
  them trade the instrument \<open>''B''\<close>.\<close>

definition sampleOrder ::
  "string \<Rightarrow> string \<Rightarrow> OrderType \<Rightarrow> OrderSide \<Rightarrow> rat \<Rightarrow> rat option \<Rightarrow> TimeInForce \<Rightarrow> nat \<Rightarrow> Order" where
  "sampleOrder i u ty sd q p tif t =
     \<lparr>order_id = i, userId = u, order_bondId = ''B'', orderType = ty, side = sd,
      order_quantity = q, filledQuantity = 0, order_price = p, stopPrice = None,
      averagePrice = None, status = PENDING, timeInForce = tif, createdAt = t\<rparr>"

definition sampleEntry :: "string \<Rightarrow> rat \<Rightarrow> rat \<Rightarrow> nat \<Rightarrow> OrderBookEntry" where
  "sampleEntry i p q t =
     \<lparr>entry_id = i, entry_price = p, entry_quantity = q, remainingQuantity = q, timestamp = t\<rparr>"

text \<open>Two resting sell orders: 60 at price 100 and 50 at price 101.\<close>

definition twoAsks :: engine where
  "twoAsks =
     \<lparr>orderBooks =
        [''B'' \<mapsto> \<lparr>bids = [], asks = [sampleEntry ''a1'' 100 60 1, sampleEntry ''a2'' 101 50 2]\<rparr>],
      orderRepository =
        [sampleOrder ''a1'' ''u1'' LIMIT SELL 60 (Some 100) GTC 1,
         sampleOrder ''a2'' ''u2'' LIMIT SELL 50 (Some 101) GTC 2],
      tradeRepository = []\<rparr>"

text \<open>One resting sell order: 60 at price 10.\<close>

definition oneAsk :: engine where
  "oneAsk =
     \<lparr>orderBooks = [''B'' \<mapsto> \<lparr>bids = [], asks = [sampleEntry ''a1'' 10 60 1]\<rparr>],
      orderRepository = [sampleOrder ''a1'' ''u1'' LIMIT SELL 60 (Some 10) GTC 1],
      tradeRepository = []\<rparr>"

text \<open>A limit buy of 100 at price 10, for each time-in-force.\<close>

definition buy100 :: "TimeInForce \<Rightarrow> Order" where
  "buy100 tif = sampleOrder ''m'' ''u3'' LIMIT BUY 100 (Some 10) tif 3"

section \<open>Process start\<close>

text \<open>Stopping the process and starting it again: the stores survive, the service object is
  built anew by its constructor.\<close>

definition restart :: "engine \<Rightarrow> engine" where
  "restart s = snd (newEngine (orderRepository s) (tradeRepository s))"

section \<open>The ordering of a book\<close>





text \<open>The order of one side written with its sort key, and the two building blocks of a book
  update: replacing the opposite side, and admitting an entry to the own side.\<close>

definition sideKey :: "OrderSide \<Rightarrow> OrderBookEntry \<Rightarrow> rat" where
  "sideKey sd e = (if sd = BUY then - entry_price e else entry_price e)"


definition other :: "OrderSide \<Rightarrow> OrderSide" where
  "other sd = (if sd = BUY then SELL else BUY)"

definition admit :: "OrderSide \<Rightarrow> OrderBookEntry \<Rightarrow> OrderBook \<Rightarrow> OrderBook" where
  "admit sd e ob = setOwnSide sd (sort_key (sideKey sd) (ownSide sd ob @ [e])) ob"


text \<open>The entry that \<^verbatim>\<open>addToOrderBook\<close> builds for an order with price \<open>p\<close> and a remaining
  quantity \<open>r\<close>.\<close>

definition restingEntry :: "Order \<Rightarrow> rat \<Rightarrow> rat \<Rightarrow> OrderBookEntry" where
  "restingEntry ord p r =
     \<lparr>entry_id = order_id ord, entry_price = p, entry_quantity = order_quantity ord,
      remainingQuantity = r, timestamp = createdAt ord\<rparr>"


text \<open>Two resting buy orders at price 50: 20 and then 30.\<close>

definition twoBids :: engine where
  "twoBids =
     \<lparr>orderBooks =
        [''B'' \<mapsto> \<lparr>bids = [sampleEntry ''b1'' 50 20 1, sampleEntry ''b2'' 50 30 2], asks = []\<rparr>],
      orderRepository =
        [sampleOrder ''b1'' ''u1'' LIMIT BUY 20 (Some 50) GTC 1,
         sampleOrder ''b2'' ''u2'' LIMIT BUY 30 (Some 50) GTC 2],
      tradeRepository = []\<rparr>"

section \<open>Crossing liquidity\<close>

text \<open>An entry crosses a limit order when its price is no worse than the order's limit; the
  liquidity available to an order is what the crossing entries of the opposite side still
  hold.\<close>

definition crosses :: "Order \<Rightarrow> OrderBookEntry \<Rightarrow> bool" where
  "crosses ord e =
     (case order_price ord of
        None \<Rightarrow> False
      | Some p \<Rightarrow> if side ord = BUY then entry_price e \<le> p else entry_price e \<ge> p)"

definition available :: "Order \<Rightarrow> engine \<Rightarrow> rat" where
  "available ord s =
     sum_list (map remainingQuantity
       (filter (crosses ord) (oppositeSide (side ord) (getOrderBook s (order_bondId ord)))))"

section \<open>The matching loops\<close>

lemma key_proj:
  "map entry_key es' = map entry_key es \<Longrightarrow>
   map (\<lambda>e. (entry_id e, entry_price e)) es' = map (\<lambda>e. (entry_id e, entry_price e)) es"
proof -
  assume h: "map entry_key es' = map entry_key es"
  have "map (\<lambda>k. (fst k, fst (snd k))) (map entry_key es') = map (\<lambda>k. (fst k, fst (snd k))) (map entry_key es)"
    by (rule arg_cong [OF h])
  then show ?thesis by (simp add: entry_key_def comp_def)
qed

lemma against_keys:
  "map entry_key es' = map entry_key es \<Longrightarrow> against sd es' t = against sd es t"
  using key_proj [of es' es] by (simp add: against_def)

lemma evolves_refl: "evolves st st"
  by (simp add: evolves_def)

lemma evolves_side: "evolves a b \<Longrightarrow> side (m_order b) = side (m_order a)"
proof -
  assume "evolves a b"
  then have "m_order b = (m_order a)\<lparr>filledQuantity := filledQuantity (m_order a) + (sumq (m_trades b) - sumq (m_trades a))\<rparr>"
    by (simp add: evolves_def)
  then have "side (m_order b) = side ((m_order a)\<lparr>filledQuantity := filledQuantity (m_order a) + (sumq (m_trades b) - sumq (m_trades a))\<rparr>)"
    by (rule arg_cong)
  then show ?thesis by simp
qed

lemma evolves_trans: 
  assumes ab: "evolves a b" and bc: "evolves b c" shows "evolves a c"
proof -
  from ab obtain n1 where n1: "m_trades b = m_trades a @ n1" "list_all (against (side (m_order a)) (m_objs a)) n1"
    by (auto simp: evolves_def)
  from bc obtain n2 where n2: "m_trades c = m_trades b @ n2" "list_all (against (side (m_order b)) (m_objs b)) n2"
    by (auto simp: evolves_def)
  have k: "map entry_key (m_objs b) = map entry_key (m_objs a)" using ab by (simp add: evolves_def)
  have sd: "side (m_order b) = side (m_order a)" using ab by (rule evolves_side)
  have "list_all (against (side (m_order a)) (m_objs a)) n2"
    using n2(2) against_keys [OF k] sd by (simp add: list_all_iff)
  with n1 n2 have t: "m_trades c = m_trades a @ (n1 @ n2) \<and> list_all (against (side (m_order a)) (m_objs a)) (n1 @ n2)"
    by simp
  have o1: "m_order b = (m_order a)\<lparr>filledQuantity := filledQuantity (m_order a) + (sumq (m_trades b) - sumq (m_trades a))\<rparr>"
    using ab by (simp add: evolves_def)
  have o2: "m_order c = (m_order b)\<lparr>filledQuantity := filledQuantity (m_order b) + (sumq (m_trades c) - sumq (m_trades b))\<rparr>"
    using bc by (simp add: evolves_def)
  have o: "m_order c = (m_order a)\<lparr>filledQuantity := filledQuantity (m_order a) + (sumq (m_trades c) - sumq (m_trades a))\<rparr>"
  proof -
    have f: "filledQuantity (m_order b) = filledQuantity (m_order a) + (sumq (m_trades b) - sumq (m_trades a))"
      using arg_cong [OF o1, of filledQuantity] by simp
    have "m_order c = (m_order a)\<lparr>filledQuantity := filledQuantity (m_order b) + (sumq (m_trades c) - sumq (m_trades b))\<rparr>"
      using o2 o1 by (metis Order.surjective Order.update_convs(7))
    then show ?thesis by (simp add: f)
  qed
  show ?thesis
    unfolding evolves_def
  proof (intro conjI)
    show "map entry_key (m_objs c) = map entry_key (m_objs a)" using ab bc by (simp add: evolves_def)
    show "m_remainingQuantity c + sumq (m_trades c) = m_remainingQuantity a + sumq (m_trades a)"
      using ab bc by (simp add: evolves_def)
    show "0 \<le> m_remainingQuantity a \<longrightarrow> 0 \<le> m_remainingQuantity c"
      using ab bc by (simp add: evolves_def)
    show "\<exists>new. m_trades c = m_trades a @ new \<and> list_all (against (side (m_order a)) (m_objs a)) new"
      using t by blast
    show "m_order c = (m_order a)\<lparr>filledQuantity := filledQuantity (m_order a) + (sumq (m_trades c) - sumq (m_trades a))\<rparr>"
      by (rule o)
  qed
qed

lemma sumq_snoc: "sumq (ts @ [t]) = sumq ts + trade_quantity t"
  by (simp add: sumq_def)

lemma entry_key_update:
  "entry_key (e\<lparr>remainingQuantity := q\<rparr>) = entry_key e"
  by (simp add: entry_key_def)

lemma map_key_update:
  "map entry_key (es[r := (es ! r)\<lparr>remainingQuantity := q\<rparr>]) = map entry_key es"
  by (simp add: map_update entry_key_update) (metis list_update_id map_update)

lemma against_nth:
  "r < length es \<Longrightarrow> restingId sd t = entry_id (es ! r) \<Longrightarrow> trade_price t = entry_price (es ! r) \<Longrightarrow> against sd es t"
  unfolding against_def by (metis (mono_tags, lifting) nth_mem image_eqI set_map)

lemma matchEntry_evolves:
  assumes r: "r < length (m_objs st)"
  shows "evolves st (snd (matchEntry fail repo r st))"
proof (cases "fail = Some (tx_writes (m_tx st))")
  case True
  then have "snd (matchEntry fail repo r st) = st"
    by (simp add: matchEntry_def Let_def manager_save_trade_def)
  then show ?thesis by (simp add: evolves_refl)
next
  case False
  have "evolves st (snd (matchEntry fail repo r st))"
    using False r
    apply (simp add: matchEntry_def Let_def manager_save_trade_def manager_save_order_def evolves_def
         sumq_snoc map_key_update split: option.splits)
    apply (intro conjI impI allI)
    apply (simp_all add: against_nth restingId_def)
    done
  then show ?thesis .
qed

lemma subseq_set: "subseq xs ys \<Longrightarrow> set xs \<subseteq> set ys"
  by (induct rule: list_emb.induct) auto



lemma splice1_subseq: "subseq (splice1 k xs) xs"
proof -
  have "subseq (take n xs @ drop (Suc n) xs) (take n xs @ drop n xs)" for n
    by (intro list_emb_append_mono subseq_order.order_refl) (metis Suc_n_not_le_n drop_all drop_Suc list_emb_Nil nat_le_linear subseq_Cons' subseq_order.order_refl tl_drop Cons_nth_drop_Suc not_less)
  then show ?thesis by (simp add: splice1_def Let_def)
qed

lemma evolves_length: "evolves st st' \<Longrightarrow> length (m_objs st') = length (m_objs st)"
  by (auto simp: evolves_def dest: map_eq_imp_length_eq)

lemma limit_loop_evolves:
  "\<forall>r\<in>set rs. r < length (m_objs st) \<Longrightarrow>
   limit_loop fail repo rs book st = (failed, book', st') \<Longrightarrow>
   evolves st st' \<and> subseq book' book"
proof (induction rs arbitrary: book st)
  case Nil
  then show ?case by (simp add: evolves_refl)
next
  case (Cons r rs)
  let ?st1 = "snd (matchEntry fail repo r st)"
  have e1: "evolves st ?st1" using Cons.prems(1) by (simp add: matchEntry_evolves)
  have len: "\<forall>r\<in>set rs. r < length (m_objs ?st1)"
    using Cons.prems(1) evolves_length [OF e1] by simp
  show ?case
  proof (cases "m_remainingQuantity st \<le> 0")
    case True
    with Cons.prems(2) show ?thesis by (simp add: evolves_refl)
  next
    case rq: False
    show ?thesis
    proof (cases "fst (matchEntry fail repo r st)")
      case True
      with rq Cons.prems(2) e1 show ?thesis by (auto simp: Let_def)
    next
      case nf: False
      show ?thesis
      proof (cases "remainingQuantity (m_objs ?st1 ! r) \<le> 0")
        case True
        with rq nf Cons.prems(2)
        have "limit_loop fail repo rs (splice1 (indexOf r book) book) ?st1 = (failed, book', st')"
          by (simp add: Let_def)
        from Cons.IH [OF len this] e1 show ?thesis
          by (meson evolves_trans splice1_subseq subseq_order.order_trans)
      next
        case False
        with rq nf Cons.prems(2)
        have "limit_loop fail repo rs book ?st1 = (failed, book', st')"
          by (simp add: Let_def)
        from Cons.IH [OF len this] e1 show ?thesis
          by (meson evolves_trans)
      qed
    qed
  qed
qed

lemma market_loop_stop:
  "length book \<le> i \<or> m_remainingQuantity st \<le> 0 \<Longrightarrow>
   market_loop fail repo i book st = (False, book, st)"
  by (subst market_loop.simps) auto

lemma market_loop_fail:
  "i < length book \<Longrightarrow> \<not> m_remainingQuantity st \<le> 0 \<Longrightarrow>
   fst (matchEntry fail repo (book ! i) st) \<Longrightarrow>
   market_loop fail repo i book st = (True, book, snd (matchEntry fail repo (book ! i) st))"
  by (subst market_loop.simps) (simp add: Let_def)

lemma market_loop_remove:
  "i < length book \<Longrightarrow> \<not> m_remainingQuantity st \<le> 0 \<Longrightarrow>
   \<not> fst (matchEntry fail repo (book ! i) st) \<Longrightarrow>
   remainingQuantity (m_objs (snd (matchEntry fail repo (book ! i) st)) ! (book ! i)) \<le> 0 \<Longrightarrow>
   market_loop fail repo i book st =
     market_loop fail repo (Suc i) (splice1 (indexOf (book ! i) book) book)
       (snd (matchEntry fail repo (book ! i) st))"
  by (subst market_loop.simps) (simp add: Let_def)

lemma market_loop_keep:
  "i < length book \<Longrightarrow> \<not> m_remainingQuantity st \<le> 0 \<Longrightarrow>
   \<not> fst (matchEntry fail repo (book ! i) st) \<Longrightarrow>
   \<not> remainingQuantity (m_objs (snd (matchEntry fail repo (book ! i) st)) ! (book ! i)) \<le> 0 \<Longrightarrow>
   market_loop fail repo i book st =
     market_loop fail repo (Suc i) book (snd (matchEntry fail repo (book ! i) st))"
  by (subst market_loop.simps) (simp add: Let_def)

lemma market_loop_evolves:
  "\<forall>r\<in>set book. r < length (m_objs st) \<Longrightarrow>
   market_loop fail repo i book st = (failed, book', st') \<Longrightarrow>
   evolves st st' \<and> subseq book' book"
proof (induction fail repo i book st rule: market_loop.induct)
  case (1 fail repo i book st)
  let ?st1 = "snd (matchEntry fail repo (book ! i) st)"
  show ?case
  proof (cases "length book \<le> i \<or> m_remainingQuantity st \<le> 0")
    case True
    with "1.prems"(2) show ?thesis
      by (auto simp: market_loop_stop evolves_refl)
  next
    case go: False
    then have i: "i < length book" and rq: "\<not> m_remainingQuantity st \<le> 0" by simp_all
    have e1: "evolves st ?st1" using "1.prems"(1) i by (simp add: matchEntry_evolves)
    show ?thesis
    proof (cases "fst (matchEntry fail repo (book ! i) st)")
      case True
      with i rq "1.prems"(2) e1 show ?thesis
        by (auto simp: market_loop_fail)
    next
      case nf: False
      show ?thesis
      proof (cases "remainingQuantity (m_objs ?st1 ! (book ! i)) \<le> 0")
        case True
        let ?book1 = "splice1 (indexOf (book ! i) book) book"
        have sub: "subseq ?book1 book" by (rule splice1_subseq)
        have len: "\<forall>r\<in>set ?book1. r < length (m_objs ?st1)"
          using "1.prems"(1) evolves_length [OF e1] sub
          by (metis subseq_set subsetD) 
        from True i rq nf "1.prems"(2)
        have run: "market_loop fail repo (Suc i) ?book1 ?st1 = (failed, book', st')"
          by (simp add: market_loop_remove)
        have "evolves ?st1 st' \<and> subseq book' ?book1"
          using "1.IH"(1) [OF _ _ refl refl _ True len run] i rq nf by simp
        with e1 sub show ?thesis
          by (meson evolves_trans subseq_order.order_trans)
      next
        case False
        have len: "\<forall>r\<in>set book. r < length (m_objs ?st1)"
          using "1.prems"(1) evolves_length [OF e1] by simp
        from False i rq nf "1.prems"(2)
        have run: "market_loop fail repo (Suc i) book ?st1 = (failed, book', st')"
          by (simp add: market_loop_keep)
        have "evolves ?st1 st' \<and> subseq book' book"
          using "1.IH"(2) [OF _ _ refl refl _ False len run] i rq nf by simp
        with e1 show ?thesis
          by (meson evolves_trans)
      qed
    qed
  qed
qed

lemma fst_getOrCreateOrderBook: "fst (getOrCreateOrderBook s b) = getOrderBook s b"
  by (simp add: getOrCreateOrderBook_def getOrderBook_def split: option.splits)

lemma matchable_refs:
  "matchable ord objs = Inr rs \<Longrightarrow> \<forall>r\<in>set rs. r < length objs"
  by (auto simp: matchable_def split: if_splits option.splits)

lemma processLimitOrder_trace:
  assumes "processLimitOrder fail s ord = (Inr ts, ord', s')"
  shows "\<exists>st. evolves \<lparr>m_objs = oppositeSide (side ord) (getOrderBook s (order_bondId ord)),
                      m_remainingQuantity = order_quantity ord, m_order = ord, m_trades = [],
                      m_tx = begin_txn (snd (getOrCreateOrderBook s (order_bondId ord)))\<rparr> st \<and>
              ts = m_trades st \<and>
              ord' = setAveragePrice ts
                       (if m_remainingQuantity st \<le> 0 then (m_order st)\<lparr>status := FILLED\<rparr>
                        else limitStatus (m_order st))"
proof -
  obtain orderBook s0 where g: "getOrCreateOrderBook s (order_bondId ord) = (orderBook, s0)"
    by (cases "getOrCreateOrderBook s (order_bondId ord)")
  then have ob: "orderBook = getOrderBook s (order_bondId ord)"
    using fst_getOrCreateOrderBook [of s "order_bondId ord"] by simp
  let ?objs = "oppositeSide (side ord) orderBook"
  let ?st0 = "\<lparr>m_objs = ?objs, m_remainingQuantity = order_quantity ord, m_order = ord,
               m_trades = [], m_tx = begin_txn s0\<rparr>"
  from assms g obtain rs where m: "matchable ord ?objs = Inr rs"
    by (auto simp: processLimitOrder_def Let_def split: sum.splits)
  obtain failed book st where l: "limit_loop fail (orderRepository s0) rs [0..<length ?objs] ?st0 = (failed, book, st)"
    by (metis prod_cases3)
  have ev: "evolves ?st0 st"
    using limit_loop_evolves [OF _ l] matchable_refs [OF m] by simp
  from assms g m l have "ts = m_trades st \<and>
              ord' = setAveragePrice ts
                       (if m_remainingQuantity st \<le> 0 then (m_order st)\<lparr>status := FILLED\<rparr>
                        else limitStatus (m_order st))"
    by (auto simp: processLimitOrder_def Let_def split: if_splits option.splits prod.splits)
  with ev show ?thesis using g ob by auto
qed

lemma processMarketOrder_trace:
  assumes "processMarketOrder fail s ord = (Inr ts, ord', s')"
  shows "\<exists>st. evolves \<lparr>m_objs = oppositeSide (side ord) (getOrderBook s (order_bondId ord)),
                      m_remainingQuantity = order_quantity ord, m_order = ord, m_trades = [],
                      m_tx = begin_txn (snd (getOrCreateOrderBook s (order_bondId ord)))\<rparr> st \<and>
              ts = m_trades st \<and>
              ord' = setAveragePrice ts (marketStatus (m_remainingQuantity st) (m_order st))"
proof -
  obtain orderBook s0 where g: "getOrCreateOrderBook s (order_bondId ord) = (orderBook, s0)"
    by (cases "getOrCreateOrderBook s (order_bondId ord)")
  then have ob: "orderBook = getOrderBook s (order_bondId ord)"
    using fst_getOrCreateOrderBook [of s "order_bondId ord"] by simp
  let ?objs = "oppositeSide (side ord) orderBook"
  let ?st0 = "\<lparr>m_objs = ?objs, m_remainingQuantity = order_quantity ord, m_order = ord,
               m_trades = [], m_tx = begin_txn s0\<rparr>"
  let ?sorted = "sort_key (\<lambda>r. if side ord = BUY then entry_price (?objs ! r) else - entry_price (?objs ! r))
                   [0..<length ?objs]"
  obtain failed book st where l: "market_loop fail (orderRepository s0) 0 ?sorted ?st0 = (failed, book, st)"
    by (metis prod_cases3)
  have ev: "evolves ?st0 st"
    using market_loop_evolves [OF _ l] by simp
  from assms g l have "ts = m_trades st \<and>
              ord' = setAveragePrice ts (marketStatus (m_remainingQuantity st) (m_order st))"
    by (auto simp: processMarketOrder_def Let_def split: if_splits option.splits prod.splits)
  with ev show ?thesis using g ob by auto
qed

lemma status_setAveragePrice [simp]: "status (setAveragePrice ts x) = status x"
  by (simp add: setAveragePrice_def)

lemma evolves_from_start:
  assumes "evolves \<lparr>m_objs = objs, m_remainingQuantity = q, m_order = ord, m_trades = [], m_tx = x\<rparr> st"
  shows "m_remainingQuantity st + sumq (m_trades st) = q"
    and "0 \<le> q \<Longrightarrow> 0 \<le> m_remainingQuantity st"
    and "list_all (against (side ord) objs) (m_trades st)"
    and "status (m_order st) = status ord"
  using assms by (auto simp: evolves_def sumq_def dest: arg_cong [where f = status])

lemma processOrder_against:
  assumes r: "fst (processOrder fail s ord) = Inr ts"
  shows "list_all (against (side ord) (oppositeSide (side ord) (getOrderBook s (order_bondId ord)))) ts"
proof -
  obtain ord' s' where p: "processOrder fail s ord = (Inr ts, ord', s')"
    using r by (cases "processOrder fail s ord") auto
  consider (market) "orderType ord = MARKET" | (limit) "orderType ord = LIMIT"
    | (other) "orderType ord \<noteq> MARKET" "orderType ord \<noteq> LIMIT" by blast
  then show ?thesis
  proof cases
    case market
    with p have "processMarketOrder fail s ord = (Inr ts, ord', s')" by (simp add: processOrder_def)
    from processMarketOrder_trace [OF this] obtain st where
      "evolves \<lparr>m_objs = oppositeSide (side ord) (getOrderBook s (order_bondId ord)),
                      m_remainingQuantity = order_quantity ord, m_order = ord, m_trades = [],
                      m_tx = begin_txn (snd (getOrCreateOrderBook s (order_bondId ord)))\<rparr> st"
      "ts = m_trades st" by blast
    with evolves_from_start(3) [OF this(1)] show ?thesis by simp
  next
    case limit
    with p have "processLimitOrder fail s ord = (Inr ts, ord', s')" by (simp add: processOrder_def)
    from processLimitOrder_trace [OF this] obtain st where
      "evolves \<lparr>m_objs = oppositeSide (side ord) (getOrderBook s (order_bondId ord)),
                      m_remainingQuantity = order_quantity ord, m_order = ord, m_trades = [],
                      m_tx = begin_txn (snd (getOrCreateOrderBook s (order_bondId ord)))\<rparr> st"
      "ts = m_trades st" by blast
    with evolves_from_start(3) [OF this(1)] show ?thesis by simp
  next
    case other
    with p show ?thesis by (simp add: processOrder_def)
  qed
qed

section \<open>Trades\<close>

text \<open>
  Claim C4. Every trade returned by \<^verbatim>\<open>processOrder\<close> for an incoming order (MARKET or LIMIT;
  the other types return no trade) was made against an entry that rested on the opposite side of
  the instrument's book when the order came in: the trade names that entry's order as its
  resting party and its price is that entry's price. The price field of the incoming order is
  used to select entries only, never as the price of a trade.
\<close>

theorem trades_at_resting_price:
  "fst (processOrder fail s ord) = Inr ts \<Longrightarrow> t \<in> set ts \<Longrightarrow>
   against (side ord) (oppositeSide (side ord) (getOrderBook s (order_bondId ord))) t"
proof -
  assume "fst (processOrder fail s ord) = Inr ts"
  then have "list_all (against (side ord)
                         (oppositeSide (side ord) (getOrderBook s (order_bondId ord)))) ts"
    by (rule processOrder_against)
  moreover assume "t \<in> set ts"
  ultimately show ?thesis by (simp add: list_all_iff)
qed

text \<open>A limit buy of 100 at 105 against asks at 100 and 101: the second trade is priced 101.\<close>

theorem trades_at_resting_price_witness:
  "fst (processOrder None twoAsks (sampleOrder ''m'' ''u3'' LIMIT BUY 100 (Some 105) GTC 3)) =
     Inr [\<lparr>trade_bondId = ''B'', buyOrderId = ''m'', sellOrderId = ''a1'', buyUserId = ''u3'',
           sellUserId = ''u1'', trade_quantity = 60, trade_price = 100, totalValue = 6000\<rparr>,
          \<lparr>trade_bondId = ''B'', buyOrderId = ''m'', sellOrderId = ''a2'', buyUserId = ''u3'',
           sellUserId = ''u2'', trade_quantity = 40, trade_price = 101, totalValue = 4040\<rparr>] \<and>
   against (side (sampleOrder ''m'' ''u3'' LIMIT BUY 100 (Some 105) GTC 3))
     (oppositeSide (side (sampleOrder ''m'' ''u3'' LIMIT BUY 100 (Some 105) GTC 3))
        (getOrderBook twoAsks (order_bondId (sampleOrder ''m'' ''u3'' LIMIT BUY 100 (Some 105) GTC 3))))
     \<lparr>trade_bondId = ''B'', buyOrderId = ''m'', sellOrderId = ''a2'', buyUserId = ''u3'',
      sellUserId = ''u2'', trade_quantity = 40, trade_price = 101, totalValue = 4040\<rparr>"
proof -
  have run: "fst (processOrder None twoAsks (sampleOrder ''m'' ''u3'' LIMIT BUY 100 (Some 105) GTC 3)) =
     Inr [\<lparr>trade_bondId = ''B'', buyOrderId = ''m'', sellOrderId = ''a1'', buyUserId = ''u3'',
           sellUserId = ''u1'', trade_quantity = 60, trade_price = 100, totalValue = 6000\<rparr>,
          \<lparr>trade_bondId = ''B'', buyOrderId = ''m'', sellOrderId = ''a2'', buyUserId = ''u3'',
           sellUserId = ''u2'', trade_quantity = 40, trade_price = 101, totalValue = 4040\<rparr>]"
    by code_simp
  from trades_at_resting_price [OF run, of
      "\<lparr>trade_bondId = ''B'', buyOrderId = ''m'', sellOrderId = ''a2'', buyUserId = ''u3'',
        sellUserId = ''u2'', trade_quantity = 40, trade_price = 101, totalValue = 4040\<rparr>"]
    run
  show ?thesis by simp
qed



section \<open>Persistence failure\<close>

text \<open>What the transaction does give: when processing raises, both stores are as they were
  before the call.\<close>

lemma addToOrderBook_repos:
  "orderRepository (snd (addToOrderBook s ord rq)) = orderRepository s \<and>
   tradeRepository (snd (addToOrderBook s ord rq)) = tradeRepository s"
  by (simp add: addToOrderBook_def getOrCreateOrderBook_def putBook_def Let_def
      split: option.splits)

lemma repos_putBook [simp]:
  "orderRepository (putBook b ob s) = orderRepository s"
  "tradeRepository (putBook b ob s) = tradeRepository s"
  by (simp_all add: putBook_def)

lemma repos_getOrCreate:
  "getOrCreateOrderBook s b = (ob, s0) \<Longrightarrow>
   orderRepository s0 = orderRepository s \<and> tradeRepository s0 = tradeRepository s"
  by (auto simp: getOrCreateOrderBook_def split: option.splits)

lemma processMarketOrder_rolls_back:
  assumes p: "processMarketOrder fail s ord = (Inl e, ord', s')"
  shows "orderRepository s' = orderRepository s \<and> tradeRepository s' = tradeRepository s"
proof -
  obtain orderBook s0 where g: "getOrCreateOrderBook s (order_bondId ord) = (orderBook, s0)"
    by (cases "getOrCreateOrderBook s (order_bondId ord)")
  let ?objs = "oppositeSide (side ord) orderBook"
  obtain failed book st where l: "market_loop fail (orderRepository s0) 0
       (sort_key (\<lambda>r. if side ord = BUY then entry_price (?objs ! r) else - entry_price (?objs ! r))
          [0..<length ?objs])
       \<lparr>m_objs = ?objs, m_remainingQuantity = order_quantity ord, m_order = ord,
        m_trades = [], m_tx = begin_txn s0\<rparr> = (failed, book, st)"
    by (metis prod_cases3)
  from p g l have "s' = putBook (order_bondId ord)
                          (setOppositeSide (side ord) (deref (m_objs st) book) orderBook) s0"
    by (auto simp: processMarketOrder_def Let_def split: if_splits option.splits)
  with repos_getOrCreate [OF g] show ?thesis by simp
qed

lemma processLimitOrder_rolls_back:
  assumes p: "processLimitOrder fail s ord = (Inl e, ord', s')"
  shows "orderRepository s' = orderRepository s \<and> tradeRepository s' = tradeRepository s"
proof -
  obtain orderBook s0 where g: "getOrCreateOrderBook s (order_bondId ord) = (orderBook, s0)"
    by (cases "getOrCreateOrderBook s (order_bondId ord)")
  let ?objs = "oppositeSide (side ord) orderBook"
  show ?thesis
  proof (cases "matchable ord ?objs")
    case (Inl err)
    with p g have "s' = s0" by (simp add: processLimitOrder_def Let_def)
    with repos_getOrCreate [OF g] show ?thesis by simp
  next
    case (Inr rs)
    obtain failed book st where l: "limit_loop fail (orderRepository s0) rs [0..<length ?objs]
         \<lparr>m_objs = ?objs, m_remainingQuantity = order_quantity ord, m_order = ord,
          m_trades = [], m_tx = begin_txn s0\<rparr> = (failed, book, st)"
      by (metis prod_cases3)
    let ?s1 = "putBook (order_bondId ord)
                 (setOppositeSide (side ord) (deref (m_objs st) book) orderBook) s0"
    obtain x s2 where a: "addToOrderBook ?s1 (limitStatus (m_order st)) (Some (m_remainingQuantity st)) = (x, s2)"
      by (cases "addToOrderBook ?s1 (limitStatus (m_order st)) (Some (m_remainingQuantity st))")
    have s2: "orderRepository s2 = orderRepository ?s1 \<and> tradeRepository s2 = tradeRepository ?s1"
      using addToOrderBook_repos [of ?s1 "limitStatus (m_order st)" "Some (m_remainingQuantity st)"] a
      by simp
    from p g Inr l a have "s' = ?s1 \<or> s' = s2"
      by (auto simp: processLimitOrder_def Let_def split: if_splits option.splits)
    with s2 repos_getOrCreate [OF g] show ?thesis by auto
  qed
qed

lemma processOrder_rolls_back:
  assumes "fst (processOrder fail s ord) = Inl e"
  shows "orderRepository (snd (snd (processOrder fail s ord))) = orderRepository s \<and>
         tradeRepository (snd (snd (processOrder fail s ord))) = tradeRepository s"
proof -
  obtain ord' s' where p: "processOrder fail s ord = (Inl e, ord', s')"
    using assms by (cases "processOrder fail s ord") auto
  then show ?thesis
    using processMarketOrder_rolls_back [of fail s ord e ord' s']
      processLimitOrder_rolls_back [of fail s ord e ord' s']
    by (auto simp: processOrder_def split: if_splits)
qed

text \<open>
  Claim C2. When persisting fails, the trades of the attempt are rolled back, the order and the
  instrument's book are as before the attempt, and the caller is told. The transaction does
  roll the two stores back and the exception does reach the caller, but the loop changes the
  in-memory book and the caller's order object inside the transaction callback, and nothing
  restores them.

  The run below is a limit buy of 100 at price 10 against one ask of 60 at price 10, where the
  third write of the transaction (the final save of the order) throws. The stores are those of
  before; the ask has left the book, the remainder of 40 rests as a bid, and the order object
  says PARTIALLY_FILLED with 60 filled.
\<close>

theorem failed_save_leaves_book_changed:
  "fst (processOrder (Some 2) oneAsk (buy100 GTC)) = Inl PersistenceError \<and>
   orderRepository (snd (snd (processOrder (Some 2) oneAsk (buy100 GTC)))) = orderRepository oneAsk \<and>
   tradeRepository (snd (snd (processOrder (Some 2) oneAsk (buy100 GTC)))) = tradeRepository oneAsk \<and>
   getOrderBook oneAsk ''B'' = \<lparr>bids = [], asks = [sampleEntry ''a1'' 10 60 1]\<rparr> \<and>
   getOrderBook (snd (snd (processOrder (Some 2) oneAsk (buy100 GTC)))) ''B'' =
     \<lparr>bids = [\<lparr>entry_id = ''m'', entry_price = 10, entry_quantity = 100,
               remainingQuantity = 40, timestamp = 3\<rparr>],
      asks = []\<rparr> \<and>
   status (fst (snd (processOrder (Some 2) oneAsk (buy100 GTC)))) = PARTIALLY_FILLED \<and>
   filledQuantity (fst (snd (processOrder (Some 2) oneAsk (buy100 GTC)))) = 60"
  by code_simp

section \<open>Recovery\<close>




text \<open>
  Claim C7. On start, recovery is to load every order that is PENDING or PARTIALLY_FILLED and
  admit its remaining quantity, so that the book of before the shutdown is there again.
  \<^verbatim>\<open>initializeOrderBooks\<close> asks the store for the PENDING orders only, although
  \<^verbatim>\<open>processLimitOrder\<close> leaves a partially filled order resting in the book with status
  PARTIALLY_FILLED.

  The run below processes a limit buy of 100 at price 10 against one ask of 60: the remainder of
  40 rests as a bid and the order is stored as PARTIALLY_FILLED. After a restart from the same
  stores the book of the instrument is empty.
\<close>

theorem restart_loses_partially_filled:
  "getOrderBook (snd (snd (processOrder None oneAsk (buy100 GTC)))) ''B'' =
     \<lparr>bids = [\<lparr>entry_id = ''m'', entry_price = 10, entry_quantity = 100,
               remainingQuantity = 40, timestamp = 3\<rparr>],
      asks = []\<rparr> \<and>
   map (\<lambda>x. (order_id x, status x, order_quantity x, filledQuantity x))
     (orderRepository (snd (snd (processOrder None oneAsk (buy100 GTC))))) =
     [(''a1'', FILLED, 60, 60), (''m'', PARTIALLY_FILLED, 100, 60)] \<and>
   getOrderBook (restart (snd (snd (processOrder None oneAsk (buy100 GTC))))) ''B'' =
     \<lparr>bids = [], asks = []\<rparr>"
  by code_simp



section \<open>The book after an operation\<close>

lemma getOrderBook_putBook [simp]:
  "getOrderBook (putBook b ob s) b' = (if b' = b then ob else getOrderBook s b')"
  by (simp add: getOrderBook_def putBook_def)

lemma getOrderBook_getOrCreate [simp]:
  "getOrderBook (snd (getOrCreateOrderBook s b)) b' = getOrderBook s b'"
  by (simp add: getOrderBook_def getOrCreateOrderBook_def split: option.splits)

lemma getOrderBook_commit [simp]: "getOrderBook (commit t s) b = getOrderBook s b"
  by (simp add: getOrderBook_def commit_def)

lemma getOrderBook_repo [simp]:
  "getOrderBook (s\<lparr>orderRepository := r\<rparr>) b = getOrderBook s b"
  by (simp add: getOrderBook_def)

lemma sideKey_BUY: "sideKey BUY = (\<lambda>e. - entry_price e)"
  by (rule ext) (simp add: sideKey_def)

lemma sideKey_not_BUY: "sd \<noteq> BUY \<Longrightarrow> sideKey sd = entry_price"
  by (rule ext) (simp add: sideKey_def)

lemma getOrderBook_addToOrderBook:
  "getOrderBook (snd (addToOrderBook s ord rq)) b' =
     (case order_price ord of
        None \<Rightarrow> getOrderBook s b'
      | Some p \<Rightarrow>
          if b' = order_bondId ord
          then admit (side ord)
                 \<lparr>entry_id = order_id ord, entry_price = p, entry_quantity = order_quantity ord,
                  remainingQuantity =
                    (case rq of None \<Rightarrow> order_quantity ord - filledQuantity ord
                     | Some r \<Rightarrow> if r = 0 then order_quantity ord - filledQuantity ord else r),
                  timestamp = createdAt ord\<rparr>
                 (getOrderBook s b')
          else getOrderBook s b')"
proof -
  obtain ob s0 where g: "getOrCreateOrderBook s (order_bondId ord) = (ob, s0)"
    by (cases "getOrCreateOrderBook s (order_bondId ord)")
  have ob: "ob = getOrderBook s (order_bondId ord)"
    using fst_getOrCreateOrderBook [of s "order_bondId ord"] g by simp
  have s0: "getOrderBook s0 b' = getOrderBook s b'"
    using getOrderBook_getOrCreate [of s "order_bondId ord" b'] g by simp
  show ?thesis
    using g ob s0
    by (auto simp: addToOrderBook_def Let_def admit_def setOwnSide_def ownSide_def sideKey_BUY
        sideKey_not_BUY sortBids_def sortAsks_def split: option.splits)
qed









lemma setOppositeSide_same [simp]: "setOppositeSide sd (oppositeSide sd ob) ob = ob"
  by (simp add: setOppositeSide_def oppositeSide_def)


lemma fst_addToOrderBook:
  "fst (addToOrderBook s ord rq) = (case order_price ord of None \<Rightarrow> Some TypeError | Some p \<Rightarrow> None)"
  by (simp add: addToOrderBook_def Let_def split: prod.splits option.splits)

lemma evolves_order:
  assumes "evolves \<lparr>m_objs = objs, m_remainingQuantity = q, m_order = ord, m_trades = [], m_tx = x\<rparr> st"
  shows "m_order st = ord\<lparr>filledQuantity := filledQuantity ord + sumq (m_trades st)\<rparr>"
  using assms by (simp add: evolves_def sumq_def)


section \<open>Keeping a book in order\<close>







lemma sides_setOppositeSide [simp]:
  "ownSide sd (setOppositeSide sd es ob) = ownSide sd ob"
  "oppositeSide sd (setOppositeSide sd es ob) = es"
  by (simp_all add: ownSide_def oppositeSide_def setOppositeSide_def)

lemma sides_setOwnSide [simp]:
  "ownSide sd (setOwnSide sd es ob) = es"
  "oppositeSide sd (setOwnSide sd es ob) = oppositeSide sd ob"
  by (simp_all add: ownSide_def oppositeSide_def setOwnSide_def)













lemma getOrderBook_cancelOrder:
  "getOrderBook (cancelOrder s i) b =
     (case findOne i (orderRepository s) of
        None \<Rightarrow> getOrderBook s b
      | Some ord \<Rightarrow>
          if b = order_bondId ord
          then setOwnSide (side ord)
                 (if findIndex (\<lambda>entry. entry_id entry = i)
                       (ownSide (side ord) (getOrderBook s (order_bondId ord))) \<ge> 0
                  then splice1
                         (findIndex (\<lambda>entry. entry_id entry = i)
                            (ownSide (side ord) (getOrderBook s (order_bondId ord))))
                         (ownSide (side ord) (getOrderBook s (order_bondId ord)))
                  else ownSide (side ord) (getOrderBook s (order_bondId ord)))
                 (getOrderBook s (order_bondId ord))
          else getOrderBook s b)"
proof (cases "findOne i (orderRepository s)")
  case None
  then show ?thesis by (simp add: cancelOrder_def)
next
  case (Some ord)
  obtain orderBook s0 where g: "getOrCreateOrderBook s (order_bondId ord) = (orderBook, s0)"
    by (cases "getOrCreateOrderBook s (order_bondId ord)")
  then have ob: "orderBook = getOrderBook s (order_bondId ord)"
    using fst_getOrCreateOrderBook [of s "order_bondId ord"] by simp
  have s0: "\<And>b. getOrderBook s0 b = getOrderBook s b"
    using getOrderBook_getOrCreate [of s "order_bondId ord"] g by simp
  show ?thesis using Some g s0 ob by (simp add: cancelOrder_def Let_def)
qed





section \<open>Cancellation\<close>

lemma find_owned:
  "findOne i os = Some ord \<Longrightarrow> userId ord = uid \<Longrightarrow>
   List.find (\<lambda>x. order_id x = i \<and> userId x = uid) os = Some ord"
  unfolding findOne_def by (induction os) (auto split: if_splits)

lemma findOne_save_order: "findOne (order_id x) (save_order x os) = Some x"
proof (cases "findOne (order_id x) os")
  case None
  then show ?thesis
    unfolding save_order_def findOne_def by (induction os) (auto split: if_splits)
next
  case (Some y)
  then show ?thesis
    unfolding save_order_def findOne_def by (induction os) (auto split: if_splits)
qed

lemma remove_first:
  "distinct (map f es) \<Longrightarrow> i \<in> set (map f es) \<Longrightarrow>
   takeWhile (\<lambda>e. f e \<noteq> i) es @ tl (dropWhile (\<lambda>e. f e \<noteq> i) es) = filter (\<lambda>e. f e \<noteq> i) es"
proof (induction es)
  case Nil
  then show ?case by simp
next
  case (Cons e es)
  show ?case
  proof (cases "f e = i")
    case True
    with Cons.prems have "i \<notin> f ` set es" by simp
    then have "\<forall>x\<in>set es. f x \<noteq> i" by blast
    then have "filter (\<lambda>e. f e \<noteq> i) es = es" by (simp add: filter_id_conv)
    with True show ?thesis by simp
  next
    case False
    with Cons show ?thesis by auto
  qed
qed

lemma takeWhile_short: "x \<in> set xs \<Longrightarrow> \<not> P x \<Longrightarrow> length (takeWhile P xs) < length xs"
  by (induction xs) auto

lemma splice1_findIndex:
  assumes d: "distinct (map entry_id es)" and i: "i \<in> set (map entry_id es)"
  shows "findIndex (\<lambda>entry. entry_id entry = i) es \<ge> 0"
    and "splice1 (findIndex (\<lambda>entry. entry_id entry = i) es) es = filter (\<lambda>e. entry_id e \<noteq> i) es"
proof -
  let ?k = "length (takeWhile (\<lambda>y. \<not> entry_id y = i) es)"
  have lt: "?k < length es"
  proof -
    from i obtain e where "e \<in> set es" "entry_id e = i" by auto
    then show ?thesis using takeWhile_short [of e es "\<lambda>y. \<not> entry_id y = i"] by simp
  qed
  then have fi: "findIndex (\<lambda>entry. entry_id entry = i) es = int ?k"
    by (simp add: findIndex_def Let_def)
  then show "findIndex (\<lambda>entry. entry_id entry = i) es \<ge> 0" by simp
  have "splice1 (int ?k) es = take ?k es @ drop (Suc ?k) es"
    using lt by (simp add: splice1_def Let_def)
  also have "take ?k es = takeWhile (\<lambda>e. entry_id e \<noteq> i) es"
    by (simp add: takeWhile_eq_take [symmetric])
  also have "drop (Suc ?k) es = tl (dropWhile (\<lambda>e. entry_id e \<noteq> i) es)"
    by (simp add: dropWhile_eq_drop drop_Suc tl_drop)
  finally show "splice1 (findIndex (\<lambda>entry. entry_id entry = i) es) es = filter (\<lambda>e. entry_id e \<noteq> i) es"
    using remove_first [OF d i] fi by simp
qed

lemma findOne_id: "findOne i os = Some ord \<Longrightarrow> order_id ord = i"
  unfolding findOne_def by (auto simp: find_Some_iff)

lemma against_id: "against sd es t \<Longrightarrow> restingId sd t \<in> set (map entry_id es)"
  unfolding against_def by auto

lemma side_ids:
  "set (map entry_id (oppositeSide sd ob)) \<subseteq> set (map entry_id (bids ob @ asks ob))"
  by (cases sd) (auto simp: oppositeSide_def)

lemma getOrderBook_TradingService_cancelOrder:
  "getOrderBook (snd (TradingService_cancelOrder s i uid)) b =
     (case getOrder s i uid of
        Inl e \<Rightarrow> getOrderBook s b
      | Inr ord \<Rightarrow> if status ord \<noteq> PENDING then getOrderBook s b
                   else getOrderBook (cancelOrder s i) b)"
  by (simp add: TradingService_cancelOrder_def Let_def split: sum.splits)

text \<open>
  Claim C9. For an order in a non-terminal state with a resting entry, cancelling removes the
  entry, marks the order CANCELLED and persists that, and no later order trades against it.
  PARTIALLY_FILLED is a non-terminal state, and \<^verbatim>\<open>processLimitOrder\<close> leaves such orders
  resting; \<^verbatim>\<open>TradingService.cancelOrder\<close> refuses every order that is not PENDING
  (``Cannot cancel non-pending order''). Below, the limit buy of 100 has traded 60 and rests
  with 40; cancelling it raises BadRequestException and the entry and the status stay.
\<close>

theorem cancel_partially_filled_counterexample:
  "map (\<lambda>x. (order_id x, status x))
     (orderRepository (snd (snd (processOrder None oneAsk (buy100 GTC))))) =
     [(''a1'', FILLED), (''m'', PARTIALLY_FILLED)] \<and>
   fst (TradingService_cancelOrder (snd (snd (processOrder None oneAsk (buy100 GTC)))) ''m'' ''u3'') =
     Inl BadRequestException \<and>
   bids (getOrderBook
           (snd (TradingService_cancelOrder (snd (snd (processOrder None oneAsk (buy100 GTC)))) ''m'' ''u3''))
           ''B'') =
     [\<lparr>entry_id = ''m'', entry_price = 10, entry_quantity = 100, remainingQuantity = 40,
       timestamp = 3\<rparr>] \<and>
   map (\<lambda>x. (order_id x, status x))
     (orderRepository
        (snd (TradingService_cancelOrder (snd (snd (processOrder None oneAsk (buy100 GTC)))) ''m'' ''u3''))) =
     [(''a1'', FILLED), (''m'', PARTIALLY_FILLED)]"
  by code_simp

text \<open>
  Claim C9, amended. For a stored order \<open>ord\<close> with id \<open>i\<close> that belongs to the caller, is
  PENDING and has an entry on its side of its instrument's book, where no id is in that book
  twice, \<^verbatim>\<open>TradingService.cancelOrder\<close> returns the order marked CANCELLED, the store
  holds it so marked, the entry with id \<open>i\<close> has left its side of the book and nothing else
  in the book has changed, and no trade that \<^verbatim>\<open>processOrder\<close> then returns for an order
  on that instrument has \<open>i\<close> as its resting party.
\<close>

theorem cancel_pending_order:
  assumes found: "findOne i (orderRepository s) = Some ord"
    and owner: "userId ord = uid"
    and pending: "status ord = PENDING"
    and rests: "i \<in> set (map entry_id (ownSide (side ord) (getOrderBook s (order_bondId ord))))"
    and unique: "distinct (map entry_id (bids (getOrderBook s (order_bondId ord)) @
                                         asks (getOrderBook s (order_bondId ord))))"
  shows "fst (TradingService_cancelOrder s i uid) = Inr (ord\<lparr>status := CANCELLED\<rparr>) \<and>
         findOne i (orderRepository (snd (TradingService_cancelOrder s i uid)))
           = Some (ord\<lparr>status := CANCELLED\<rparr>) \<and>
         ownSide (side ord) (getOrderBook (snd (TradingService_cancelOrder s i uid)) (order_bondId ord))
           = filter (\<lambda>e. entry_id e \<noteq> i) (ownSide (side ord) (getOrderBook s (order_bondId ord))) \<and>
         oppositeSide (side ord) (getOrderBook (snd (TradingService_cancelOrder s i uid)) (order_bondId ord))
           = oppositeSide (side ord) (getOrderBook s (order_bondId ord)) \<and>
         (order_bondId ord2 = order_bondId ord \<longrightarrow>
          fst (processOrder fail (snd (TradingService_cancelOrder s i uid)) ord2) = Inr ts \<longrightarrow>
          t \<in> set ts \<longrightarrow> restingId (side ord2) t \<noteq> i)"
proof -
  let ?s' = "snd (TradingService_cancelOrder s i uid)"
  let ?ob = "getOrderBook s (order_bondId ord)"
  let ?own = "ownSide (side ord) ?ob"
  have id: "order_id ord = i" using found by (rule findOne_id)
  have get: "getOrder s i uid = Inr ord"
    using find_owned [OF found owner] by (simp add: getOrder_def)
  have res: "fst (TradingService_cancelOrder s i uid) = Inr (ord\<lparr>status := CANCELLED\<rparr>)"
    using get pending by (simp add: TradingService_cancelOrder_def Let_def)
  have "orderRepository ?s' = save_order (ord\<lparr>status := CANCELLED\<rparr>) (orderRepository (cancelOrder s i))"
    using get pending by (simp add: TradingService_cancelOrder_def Let_def)
  then have stored: "findOne i (orderRepository ?s') = Some (ord\<lparr>status := CANCELLED\<rparr>)"
    using findOne_save_order [of "ord\<lparr>status := CANCELLED\<rparr>"] id by simp
  from unique have d: "distinct (map entry_id (?own @ oppositeSide (side ord) ?ob))"
    by (cases "side ord") (auto simp: ownSide_def oppositeSide_def)
  then have down: "distinct (map entry_id ?own)" by simp
  have book: "getOrderBook ?s' (order_bondId ord) =
          setOwnSide (side ord) (filter (\<lambda>e. entry_id e \<noteq> i) ?own) ?ob"
    using get pending found splice1_findIndex [OF down rests]
    by (simp add: getOrderBook_TradingService_cancelOrder getOrderBook_cancelOrder)
  have own': "ownSide (side ord) (getOrderBook ?s' (order_bondId ord)) = filter (\<lambda>e. entry_id e \<noteq> i) ?own"
    and opp': "oppositeSide (side ord) (getOrderBook ?s' (order_bondId ord)) = oppositeSide (side ord) ?ob"
    by (simp_all add: book)
  have "i \<notin> set (map entry_id (oppositeSide (side ord) ?ob))"
    using d rests by auto
  then have gone: "i \<notin> set (map entry_id (bids (getOrderBook ?s' (order_bondId ord)) @
                                            asks (getOrderBook ?s' (order_bondId ord))))"
    using own' opp' by (cases "side ord") (auto simp: ownSide_def oppositeSide_def)
  have later: "restingId (side ord2) t \<noteq> i"
    if b: "order_bondId ord2 = order_bondId ord"
      and run: "fst (processOrder fail ?s' ord2) = Inr ts" and t: "t \<in> set ts"
  proof -
    from processOrder_against [OF run] t b
    have "restingId (side ord2) t \<in>
            set (map entry_id (oppositeSide (side ord2) (getOrderBook ?s' (order_bondId ord))))"
      using against_id by (auto simp: list_all_iff)
    with side_ids [of "side ord2" "getOrderBook ?s' (order_bondId ord)"] gone show ?thesis
      by auto
  qed
  from res stored own' opp' later show ?thesis by blast
qed

text \<open>Two bids of 20 and 30 rest at price 50; the first is cancelled; a sell of 20 at price 50
  then trades against the second.\<close>

theorem cancel_pending_order_witness:
  "findOne ''b1'' (orderRepository twoBids) = Some (sampleOrder ''b1'' ''u1'' LIMIT BUY 20 (Some 50) GTC 1) \<and>
   fst (TradingService_cancelOrder twoBids ''b1'' ''u1'') =
     Inr ((sampleOrder ''b1'' ''u1'' LIMIT BUY 20 (Some 50) GTC 1)\<lparr>status := CANCELLED\<rparr>) \<and>
   findOne ''b1'' (orderRepository (snd (TradingService_cancelOrder twoBids ''b1'' ''u1''))) =
     Some ((sampleOrder ''b1'' ''u1'' LIMIT BUY 20 (Some 50) GTC 1)\<lparr>status := CANCELLED\<rparr>) \<and>
   fst (processOrder None (snd (TradingService_cancelOrder twoBids ''b1'' ''u1''))
          (sampleOrder ''s'' ''u3'' LIMIT SELL 20 (Some 50) GTC 9)) =
     Inr [\<lparr>trade_bondId = ''B'', buyOrderId = ''b2'', sellOrderId = ''s'', buyUserId = ''u2'',
           sellUserId = ''u3'', trade_quantity = 20, trade_price = 50, totalValue = 1000\<rparr>] \<and>
   restingId (side (sampleOrder ''s'' ''u3'' LIMIT SELL 20 (Some 50) GTC 9))
     \<lparr>trade_bondId = ''B'', buyOrderId = ''b2'', sellOrderId = ''s'', buyUserId = ''u2'',
      sellUserId = ''u3'', trade_quantity = 20, trade_price = 50, totalValue = 1000\<rparr> \<noteq> ''b1''"
proof -
  let ?ord = "sampleOrder ''b1'' ''u1'' LIMIT BUY 20 (Some 50) GTC 1"
  let ?ord2 = "sampleOrder ''s'' ''u3'' LIMIT SELL 20 (Some 50) GTC 9"
  let ?t = "\<lparr>trade_bondId = ''B'', buyOrderId = ''b2'', sellOrderId = ''s'', buyUserId = ''u2'',
             sellUserId = ''u3'', trade_quantity = 20, trade_price = 50, totalValue = 1000\<rparr>"
  have found: "findOne ''b1'' (orderRepository twoBids) = Some ?ord" by code_simp
  have owner: "userId ?ord = ''u1''" by code_simp
  have pending: "status ?ord = PENDING" by code_simp
  have rests: "''b1'' \<in> set (map entry_id (ownSide (side ?ord) (getOrderBook twoBids (order_bondId ?ord))))"
    by code_simp
  have unique: "distinct (map entry_id (bids (getOrderBook twoBids (order_bondId ?ord)) @
                                        asks (getOrderBook twoBids (order_bondId ?ord))))"
    by code_simp
  have b: "order_bondId ?ord2 = order_bondId ?ord" by code_simp
  have run: "fst (processOrder None (snd (TradingService_cancelOrder twoBids ''b1'' ''u1'')) ?ord2) = Inr [?t]"
    by code_simp
  have t: "?t \<in> set [?t]" by simp
  from cancel_pending_order [OF found owner pending rests unique, of ?ord2 None "[?t]" ?t]
    found b run t
  show ?thesis by blast
qed

section \<open>Time in force\<close>

lemma manager_save_order_None:
  "manager_save_order None x t = Some (t\<lparr>tx_orders := save_order x (tx_orders t), tx_writes := Suc (tx_writes t)\<rparr>)"
  by (simp add: manager_save_order_def)

lemma processLimitOrder_rests:
  assumes p: "processLimitOrder fail s ord = (Inr ts, ord', s')"
    and rem: "sumq ts < order_quantity ord"
    and pr: "order_price ord = Some pr"
  shows "restingEntry ord pr (order_quantity ord - sumq ts)
           \<in> set (ownSide (side ord) (getOrderBook s' (order_bondId ord)))"
proof -
  obtain orderBook s0 where g: "getOrCreateOrderBook s (order_bondId ord) = (orderBook, s0)"
    by (cases "getOrCreateOrderBook s (order_bondId ord)")
  let ?objs = "oppositeSide (side ord) orderBook"
  let ?st0 = "\<lparr>m_objs = ?objs, m_remainingQuantity = order_quantity ord, m_order = ord,
               m_trades = [], m_tx = begin_txn s0\<rparr>"
  from p g obtain rs where m: "matchable ord ?objs = Inr rs"
    by (auto simp: processLimitOrder_def Let_def split: sum.splits)
  obtain failed book st where l: "limit_loop fail (orderRepository s0) rs [0..<length ?objs] ?st0 = (failed, book, st)"
    by (metis prod_cases3)
  have ev: "evolves ?st0 st"
    using limit_loop_evolves [OF _ l] matchable_refs [OF m] by simp
  let ?ord1 = "limitStatus (m_order st)"
  have ord1: "order_price ?ord1 = order_price ord" "order_bondId ?ord1 = order_bondId ord"
    "side ?ord1 = side ord" "order_id ?ord1 = order_id ord"
    "order_quantity ?ord1 = order_quantity ord" "createdAt ?ord1 = createdAt ord"
    by (simp_all add: evolves_order [OF ev] limitStatus_def)
  let ?s1 = "putBook (order_bondId ord)
               (setOppositeSide (side ord) (deref (m_objs st) book) orderBook) s0"
  obtain e s2 where a: "addToOrderBook ?s1 ?ord1 (Some (m_remainingQuantity st)) = (e, s2)"
    by (cases "addToOrderBook ?s1 ?ord1 (Some (m_remainingQuantity st))")
  have nf: "\<not> failed" using p g m l by (auto simp: processLimitOrder_def Let_def split: if_splits)
  have ts: "ts = m_trades st"
    using p g m l a by (auto simp: processLimitOrder_def Let_def split: if_splits option.splits)
  have rq: "m_remainingQuantity st = order_quantity ord - sumq ts"
    using evolves_from_start(1) [OF ev] ts by simp
  with rem have pos: "0 < m_remainingQuantity st" by simp
  have s': "getOrderBook s' (order_bondId ord) = getOrderBook s2 (order_bondId ord)"
    using p g m l a nf pos
    by (auto simp: processLimitOrder_def Let_def split: if_splits option.splits)
  have s2eq: "s2 = snd (addToOrderBook ?s1 ?ord1 (Some (m_remainingQuantity st)))"
    using a by simp
  have "getOrderBook s2 (order_bondId ord) =
          admit (side ord) (restingEntry ord pr (m_remainingQuantity st))
            (setOppositeSide (side ord) (deref (m_objs st) book) orderBook)"
    unfolding s2eq getOrderBook_addToOrderBook ord1 restingEntry_def
    using pr pos by simp
  with s' rq show ?thesis by (simp add: admit_def)
qed

lemma matchEntry_None:
  "fst (matchEntry None repo r st) = False \<and>
   m_remainingQuantity (snd (matchEntry None repo r st)) =
     m_remainingQuantity st - min (m_remainingQuantity st) (remainingQuantity (m_objs st ! r)) \<and>
   m_objs (snd (matchEntry None repo r st)) =
     (m_objs st)[r := (m_objs st ! r)\<lparr>remainingQuantity :=
        remainingQuantity (m_objs st ! r)
          - min (m_remainingQuantity st) (remainingQuantity (m_objs st ! r))\<rparr>]"
  by (simp add: matchEntry_def Let_def manager_save_trade_def manager_save_order_def
      split: option.splits)

lemma limit_loop_exhaust:
  assumes "distinct rs"
    and "\<forall>r\<in>set rs. r < length (m_objs st)"
    and "\<forall>r\<in>set rs. 0 < remainingQuantity (m_objs st ! r)"
    and "sum_list (map (\<lambda>r. remainingQuantity (m_objs st ! r)) rs) < m_remainingQuantity st"
  shows "fst (limit_loop None repo rs book st) = False \<and>
         m_remainingQuantity (snd (snd (limit_loop None repo rs book st))) =
           m_remainingQuantity st - sum_list (map (\<lambda>r. remainingQuantity (m_objs st ! r)) rs)"
  using assms
proof (induction rs arbitrary: book st)
  case Nil
  then show ?case by simp
next
  case (Cons r rs)
  let ?rem = "remainingQuantity (m_objs st ! r)"
  let ?st1 = "snd (matchEntry None repo r st)"
  let ?sum = "sum_list (map (\<lambda>r. remainingQuantity (m_objs st ! r)) rs)"
  have rpos: "0 < ?rem" and rlen: "r < length (m_objs st)" using Cons.prems by simp_all
  have sum_nn: "0 \<le> ?sum" using Cons.prems(3) by (intro sum_list_nonneg) auto
  have less: "?rem + ?sum < m_remainingQuantity st" using Cons.prems(4) by simp
  then have rq: "\<not> m_remainingQuantity st \<le> 0" and mn: "min (m_remainingQuantity st) ?rem = ?rem"
    using rpos sum_nn by simp_all
  note me = matchEntry_None [of repo r st]
  have rq1: "m_remainingQuantity ?st1 = m_remainingQuantity st - ?rem" using me mn by simp
  have objs1: "m_objs ?st1 = (m_objs st)[r := (m_objs st ! r)\<lparr>remainingQuantity := 0\<rparr>]"
    using me mn by simp
  have gone: "remainingQuantity (m_objs ?st1 ! r) \<le> 0" using objs1 rlen by simp
  have same: "\<forall>x\<in>set rs. m_objs ?st1 ! x = m_objs st ! x"
  proof
    fix x assume "x \<in> set rs"
    with Cons.prems(1) have "r \<noteq> x" by auto
    then show "m_objs ?st1 ! x = m_objs st ! x" by (simp add: objs1)
  qed
  then have sum1: "sum_list (map (\<lambda>r. remainingQuantity (m_objs ?st1 ! r)) rs) = ?sum"
    by (simp cong: map_cong)
  have step: "limit_loop None repo (r # rs) book st =
              limit_loop None repo rs (splice1 (indexOf r book) book) ?st1"
    using rq me gone by (simp add: Let_def)
  have "fst (limit_loop None repo rs (splice1 (indexOf r book) book) ?st1) = False \<and>
         m_remainingQuantity (snd (snd (limit_loop None repo rs (splice1 (indexOf r book) book) ?st1))) =
           m_remainingQuantity ?st1 - sum_list (map (\<lambda>r. remainingQuantity (m_objs ?st1 ! r)) rs)"
  proof (rule Cons.IH)
    show "distinct rs" using Cons.prems(1) by simp
    show "\<forall>r\<in>set rs. r < length (m_objs ?st1)" using Cons.prems(2) objs1 by simp
    show "\<forall>r\<in>set rs. 0 < remainingQuantity (m_objs ?st1 ! r)" using Cons.prems(3) same by simp
    show "sum_list (map (\<lambda>r. remainingQuantity (m_objs ?st1 ! r)) rs) < m_remainingQuantity ?st1"
      using sum1 rq1 less by simp
  qed
  with step sum1 rq1 show ?case by simp
qed

lemma sum_list_sort_key:
  fixes h :: "'a \<Rightarrow> rat"
  shows "sum_list (map h (sort_key k xs)) = sum_list (map h xs)"
  by (metis mset_map mset_sort sum_mset_sum_list)

lemma matchable_available:
  assumes pr: "order_price ord = Some p"
  shows "\<exists>rs. matchable ord objs = Inr rs \<and> distinct rs \<and> (\<forall>r\<in>set rs. r < length objs) \<and>
           sum_list (map (\<lambda>r. remainingQuantity (objs ! r)) rs) =
             sum_list (map remainingQuantity (filter (crosses ord) objs))"
proof (cases "objs = []")
  case True
  then show ?thesis by (simp add: matchable_def)
next
  case False
  let ?c = "\<lambda>r. if side ord = BUY then entry_price (objs ! r) \<le> p else entry_price (objs ! r) \<ge> p"
  let ?k = "\<lambda>r. if side ord = BUY then entry_price (objs ! r) else - entry_price (objs ! r)"
  let ?rs = "sort_key ?k (filter ?c [0..<length objs])"
  have m: "matchable ord objs = Inr ?rs" using False pr by (simp add: matchable_def)
  have c: "?c = (\<lambda>r. crosses ord (objs ! r))" using pr by (simp add: crosses_def)
  have "map (\<lambda>r. remainingQuantity (objs ! r)) (filter (\<lambda>r. crosses ord (objs ! r)) [0..<length objs])
        = map remainingQuantity (filter (crosses ord) (map ((!) objs) [0..<length objs]))"
    by (simp add: filter_map comp_def)
  then have "sum_list (map (\<lambda>r. remainingQuantity (objs ! r)) ?rs) =
             sum_list (map remainingQuantity (filter (crosses ord) objs))"
    by (simp add: sum_list_sort_key c map_nth)
  with m show ?thesis by auto
qed

lemma processLimitOrder_unsatisfiable:
  assumes pr: "order_price ord = Some p"
    and pos: "list_all (\<lambda>e. 0 < remainingQuantity e)
                (oppositeSide (side ord) (getOrderBook s (order_bondId ord)))"
    and less: "available ord s < order_quantity ord"
  shows "\<exists>ts ord' s'. processLimitOrder None s ord = (Inr ts, ord', s') \<and>
           sumq ts = available ord s \<and>
           status ord' =
             (if 0 < filledQuantity ord + available ord s then PARTIALLY_FILLED else status ord)"
proof -
  obtain orderBook s0 where g: "getOrCreateOrderBook s (order_bondId ord) = (orderBook, s0)"
    by (cases "getOrCreateOrderBook s (order_bondId ord)")
  then have ob: "orderBook = getOrderBook s (order_bondId ord)"
    using fst_getOrCreateOrderBook [of s "order_bondId ord"] by simp
  let ?objs = "oppositeSide (side ord) orderBook"
  let ?st0 = "\<lparr>m_objs = ?objs, m_remainingQuantity = order_quantity ord, m_order = ord,
               m_trades = [], m_tx = begin_txn s0\<rparr>"
  from matchable_available [OF pr, of ?objs] obtain rs where
    m: "matchable ord ?objs = Inr rs" and d: "distinct rs"
    and v: "\<forall>r\<in>set rs. r < length ?objs"
    and sum: "sum_list (map (\<lambda>r. remainingQuantity (?objs ! r)) rs) = available ord s"
    by (auto simp: available_def ob)
  obtain failed book st where l: "limit_loop None (orderRepository s0) rs [0..<length ?objs] ?st0 = (failed, book, st)"
    by (metis prod_cases3)
  have "fst (limit_loop None (orderRepository s0) rs [0..<length ?objs] ?st0) = False \<and>
        m_remainingQuantity (snd (snd (limit_loop None (orderRepository s0) rs [0..<length ?objs] ?st0))) =
          m_remainingQuantity ?st0 - sum_list (map (\<lambda>r. remainingQuantity (m_objs ?st0 ! r)) rs)"
  proof (rule limit_loop_exhaust [OF d])
    show "\<forall>r\<in>set rs. r < length (m_objs ?st0)" using v by simp
    show "\<forall>r\<in>set rs. 0 < remainingQuantity (m_objs ?st0 ! r)"
      using v pos ob by (simp add: list_all_iff)
    show "sum_list (map (\<lambda>r. remainingQuantity (m_objs ?st0 ! r)) rs) < m_remainingQuantity ?st0"
      using sum less by simp
  qed
  with l sum have nf: "\<not> failed" and rq: "m_remainingQuantity st = order_quantity ord - available ord s"
    by simp_all
  from rq less have rpos: "\<not> m_remainingQuantity st \<le> 0" by simp
  have ev: "evolves ?st0 st"
    using limit_loop_evolves [OF _ l] v by simp
  let ?ord1 = "limitStatus (m_order st)"
  have ord1: "order_price ?ord1 = order_price ord"
    by (simp add: evolves_order [OF ev] limitStatus_def)
  let ?s1 = "putBook (order_bondId ord)
               (setOppositeSide (side ord) (deref (m_objs st) book) orderBook) s0"
  obtain e s2 where a: "addToOrderBook ?s1 ?ord1 (Some (m_remainingQuantity st)) = (e, s2)"
    by (cases "addToOrderBook ?s1 ?ord1 (Some (m_remainingQuantity st))")
  have e: "e = None"
    using fst_addToOrderBook [of ?s1 ?ord1 "Some (m_remainingQuantity st)"] a ord1 pr by simp
  have res: "processLimitOrder None s ord =
          (Inr (m_trades st), setAveragePrice (m_trades st) ?ord1,
           commit ((m_tx st)\<lparr>tx_orders := save_order (setAveragePrice (m_trades st) ?ord1) (tx_orders (m_tx st)),
                             tx_writes := Suc (tx_writes (m_tx st))\<rparr>) s2)"
    using g m l nf rpos a e
    by (simp add: processLimitOrder_def Let_def manager_save_order_None)
  have tot: "sumq (m_trades st) = available ord s"
    using evolves_from_start(1) [OF ev] rq by simp
  have "status (setAveragePrice (m_trades st) ?ord1) =
          (if 0 < filledQuantity ord + available ord s then PARTIALLY_FILLED else status ord)"
    using tot by (simp add: evolves_order [OF ev] limitStatus_def)
  with res tot show ?thesis by blast
qed

text \<open>
  Claim C1. A LIMIT order with time-in-force FOK that the crossing entries cannot fill
  completely is rejected: status REJECTED, no trade, the book unchanged. The engine never reads
  the time-in-force. Below (scenario D of the specification) a FOK limit buy of 100 at price 10
  meets asks of 60 in total: one trade of 60 is made, the order ends PARTIALLY_FILLED, the ask
  has left the book and the remaining 40 rest as a bid.
\<close>

theorem fok_unsatisfiable_counterexample:
  "timeInForce (buy100 FOK) = FOK \<and> orderType (buy100 FOK) = LIMIT \<and>
   order_quantity (buy100 FOK) = 100 \<and> available (buy100 FOK) oneAsk = 60 \<and>
   getOrderBook oneAsk ''B'' = \<lparr>bids = [], asks = [sampleEntry ''a1'' 10 60 1]\<rparr> \<and>
   fst (processOrder None oneAsk (buy100 FOK)) =
     Inr [\<lparr>trade_bondId = ''B'', buyOrderId = ''m'', sellOrderId = ''a1'', buyUserId = ''u3'',
           sellUserId = ''u1'', trade_quantity = 60, trade_price = 10, totalValue = 600\<rparr>] \<and>
   status (fst (snd (processOrder None oneAsk (buy100 FOK)))) = PARTIALLY_FILLED \<and>
   getOrderBook (snd (snd (processOrder None oneAsk (buy100 FOK)))) ''B'' =
     \<lparr>bids = [\<lparr>entry_id = ''m'', entry_price = 10, entry_quantity = 100,
               remainingQuantity = 40, timestamp = 3\<rparr>],
      asks = []\<rparr>"
  by code_simp

text \<open>
  Claim C1, amended. Take a LIMIT order with time-in-force FOK and a limit price, a book whose
  opposite side holds entries of positive remaining quantity, crossing liquidity short of the
  order's quantity, and a database that does not fail. Then \<^verbatim>\<open>processOrder\<close> does not
  reject: it returns trades for all of the crossing liquidity, the order ends PARTIALLY_FILLED
  if it has any filled quantity and keeps the status it came with otherwise, and the unfilled
  remainder rests on the order's side of the book.
\<close>

theorem fok_unsatisfiable_is_matched:
  assumes ty: "orderType ord = LIMIT" and "timeInForce ord = FOK"
    and pr: "order_price ord = Some p"
    and pos: "list_all (\<lambda>e. 0 < remainingQuantity e)
                (oppositeSide (side ord) (getOrderBook s (order_bondId ord)))"
    and less: "available ord s < order_quantity ord"
  shows "(\<exists>ts. fst (processOrder None s ord) = Inr ts \<and> sumq ts = available ord s) \<and>
         status (fst (snd (processOrder None s ord))) =
           (if 0 < filledQuantity ord + available ord s then PARTIALLY_FILLED else status ord) \<and>
         restingEntry ord p (order_quantity ord - available ord s)
           \<in> set (ownSide (side ord)
                    (getOrderBook (snd (snd (processOrder None s ord))) (order_bondId ord)))"
proof -
  from processLimitOrder_unsatisfiable [OF pr pos less] obtain ts ord' s' where
    run: "processLimitOrder None s ord = (Inr ts, ord', s')"
    and tot: "sumq ts = available ord s"
    and st: "status ord' =
             (if 0 < filledQuantity ord + available ord s then PARTIALLY_FILLED else status ord)"
    by blast
  have "restingEntry ord p (order_quantity ord - sumq ts)
          \<in> set (ownSide (side ord) (getOrderBook s' (order_bondId ord)))"
    using run less tot pr by (intro processLimitOrder_rests) simp_all
  with run tot st ty show ?thesis by (simp add: processOrder_def)
qed

theorem fok_unsatisfiable_is_matched_witness:
  "orderType (buy100 FOK) = LIMIT \<and> timeInForce (buy100 FOK) = FOK \<and>
   order_price (buy100 FOK) = Some 10 \<and>
   available (buy100 FOK) oneAsk < order_quantity (buy100 FOK) \<and>
   (\<exists>ts. fst (processOrder None oneAsk (buy100 FOK)) = Inr ts \<and>
         sumq ts = available (buy100 FOK) oneAsk) \<and>
   status (fst (snd (processOrder None oneAsk (buy100 FOK)))) =
     (if 0 < filledQuantity (buy100 FOK) + available (buy100 FOK) oneAsk
      then PARTIALLY_FILLED else status (buy100 FOK)) \<and>
   restingEntry (buy100 FOK) 10 (order_quantity (buy100 FOK) - available (buy100 FOK) oneAsk)
     \<in> set (ownSide (side (buy100 FOK))
              (getOrderBook (snd (snd (processOrder None oneAsk (buy100 FOK))))
                 (order_bondId (buy100 FOK))))"
proof -
  have ty: "orderType (buy100 FOK) = LIMIT" by code_simp
  have tif: "timeInForce (buy100 FOK) = FOK" by code_simp
  have pr: "order_price (buy100 FOK) = Some 10" by code_simp
  have pos: "list_all (\<lambda>e. 0 < remainingQuantity e)
               (oppositeSide (side (buy100 FOK)) (getOrderBook oneAsk (order_bondId (buy100 FOK))))"
    by code_simp
  have less: "available (buy100 FOK) oneAsk < order_quantity (buy100 FOK)" by code_simp
  from fok_unsatisfiable_is_matched [OF ty tif pr pos less] ty tif pr less
  show ?thesis by blast
qed

text \<open>
  Claim C6. The unmatched remainder of a LIMIT order rests in the book only when the order is
  GTC; an IOC or FOK order never rests. The branch that admits the remainder does not look at
  the time-in-force: below, the remainder of 40 of an IOC order, and of a FOK order, rests as a
  bid.
\<close>

theorem ioc_remainder_counterexample:
  "timeInForce (buy100 IOC) = IOC \<and>
   bids (getOrderBook (snd (snd (processOrder None oneAsk (buy100 IOC)))) ''B'') =
     [\<lparr>entry_id = ''m'', entry_price = 10, entry_quantity = 100, remainingQuantity = 40,
       timestamp = 3\<rparr>] \<and>
   timeInForce (buy100 FOK) = FOK \<and>
   bids (getOrderBook (snd (snd (processOrder None oneAsk (buy100 FOK)))) ''B'') =
     [\<lparr>entry_id = ''m'', entry_price = 10, entry_quantity = 100, remainingQuantity = 40,
       timestamp = 3\<rparr>]"
  by code_simp

text \<open>
  Claim C6, amended. Whenever \<^verbatim>\<open>processOrder\<close> returns the trades of a LIMIT order and
  they add up to less than the order's quantity, the book holds, on the order's side, an entry
  with the order's id, its limit price, its quantity, the unmatched remainder as remaining
  quantity, and its creation time as timestamp. This is so for every time-in-force: the
  remainder of an IOC or FOK order rests like that of a GTC order and none is discarded.
\<close>

theorem limit_remainder_rests:
  assumes ty: "orderType ord = LIMIT" and pr: "order_price ord = Some p"
    and run: "fst (processOrder fail s ord) = Inr ts"
    and rem: "sumq ts < order_quantity ord"
  shows "restingEntry ord p (order_quantity ord - sumq ts)
           \<in> set (ownSide (side ord)
                    (getOrderBook (snd (snd (processOrder fail s ord))) (order_bondId ord)))"
proof -
  obtain ord' s' where p: "processOrder fail s ord = (Inr ts, ord', s')"
    using run by (cases "processOrder fail s ord") auto
  with ty have "processLimitOrder fail s ord = (Inr ts, ord', s')" by (simp add: processOrder_def)
  from processLimitOrder_rests [OF this rem pr] p show ?thesis by simp
qed

theorem limit_remainder_rests_witness:
  "timeInForce (buy100 IOC) = IOC \<and> orderType (buy100 IOC) = LIMIT \<and>
   order_price (buy100 IOC) = Some 10 \<and>
   fst (processOrder None oneAsk (buy100 IOC)) =
     Inr [\<lparr>trade_bondId = ''B'', buyOrderId = ''m'', sellOrderId = ''a1'', buyUserId = ''u3'',
           sellUserId = ''u1'', trade_quantity = 60, trade_price = 10, totalValue = 600\<rparr>] \<and>
   restingEntry (buy100 IOC) 10
     (order_quantity (buy100 IOC) -
      sumq [\<lparr>trade_bondId = ''B'', buyOrderId = ''m'', sellOrderId = ''a1'', buyUserId = ''u3'',
             sellUserId = ''u1'', trade_quantity = 60, trade_price = 10, totalValue = 600\<rparr>])
     \<in> set (ownSide (side (buy100 IOC))
              (getOrderBook (snd (snd (processOrder None oneAsk (buy100 IOC))))
                 (order_bondId (buy100 IOC))))"
proof -
  let ?t = "\<lparr>trade_bondId = ''B'', buyOrderId = ''m'', sellOrderId = ''a1'', buyUserId = ''u3'',
             sellUserId = ''u1'', trade_quantity = 60, trade_price = 10, totalValue = 600\<rparr>"
  have tif: "timeInForce (buy100 IOC) = IOC" by code_simp
  have ty: "orderType (buy100 IOC) = LIMIT" by code_simp
  have pr: "order_price (buy100 IOC) = Some 10" by code_simp
  have run: "fst (processOrder None oneAsk (buy100 IOC)) = Inr [?t]" by code_simp
  have rem: "sumq [?t] < order_quantity (buy100 IOC)" by code_simp
  from limit_remainder_rests [OF ty pr run rem] tif ty pr run
  show ?thesis by blast
qed

section \<open>Order types outside the matching paths\<close>

text \<open>
  Claim C10. An incoming order whose type is STOP_LOSS or ICEBERG falls through both branches of
  \<^verbatim>\<open>processOrder\<close>: the call returns the empty trade list and the order as it came in,
  and the service (every order book, the order store and the trade store) is the one it started
  from, whatever the database would have done.
\<close>

theorem processOrder_other_types:
  "orderType ord = STOP_LOSS \<or> orderType ord = ICEBERG \<Longrightarrow>
     processOrder fail s ord = (Inr [], ord, s)"
  by (auto simp: processOrder_def)

theorem processOrder_other_types_witness:
  "processOrder None
     \<lparr>orderBooks = Map.empty, orderRepository = [], tradeRepository = []\<rparr>
     \<lparr>order_id = ''o1'', userId = ''u1'', order_bondId = ''B'', orderType = STOP_LOSS,
      side = SELL, order_quantity = 10, filledQuantity = 0, order_price = None,
      stopPrice = Some 95, averagePrice = None, status = PENDING, timeInForce = GTC,
      createdAt = 7\<rparr>
   = (Inr [],
      \<lparr>order_id = ''o1'', userId = ''u1'', order_bondId = ''B'', orderType = STOP_LOSS,
       side = SELL, order_quantity = 10, filledQuantity = 0, order_price = None,
       stopPrice = Some 95, averagePrice = None, status = PENDING, timeInForce = GTC,
       createdAt = 7\<rparr>,
      \<lparr>orderBooks = Map.empty, orderRepository = [], tradeRepository = []\<rparr>)"
  by (rule processOrder_other_types) simp

end
